theory Spec2Isabelle
  imports Main
begin

section \<open>Text primitives of the host language\<close>

text \<open>
  The program is Python; its text values are modelled as \<^typ>\<open>string\<close>, one
  \<^typ>\<open>char\<close> per code point, which covers the code points below 256. The
  character classes below are Python's on that range: \<open>str.isspace\<close> and the
  regular-expression class \<open>\s\<close> agree there, \<open>\d\<close> is the ten decimal
  digits, and \<open>str.lower\<close> moves the capital letters of ASCII and of Latin-1.
\<close>

definition is_space :: "char \<Rightarrow> bool" where
  "is_space c =
     (let n = of_char c :: nat
      in (9 \<le> n \<and> n \<le> 13) \<or> (28 \<le> n \<and> n \<le> 32) \<or> n = 133 \<or> n = 160)"

definition is_digit :: "char \<Rightarrow> bool" where
  "is_digit c = (let n = of_char c :: nat in 48 \<le> n \<and> n \<le> 57)"

definition is_hex :: "char \<Rightarrow> bool" where
  "is_hex c =
     (let n = of_char c :: nat
      in (48 \<le> n \<and> n \<le> 57) \<or> (65 \<le> n \<and> n \<le> 70) \<or> (97 \<le> n \<and> n \<le> 102))"

definition lower_char :: "char \<Rightarrow> char" where
  "lower_char c =
     (let n = of_char c :: nat
      in if (65 \<le> n \<and> n \<le> 90) \<or> (192 \<le> n \<and> n \<le> 222 \<and> n \<noteq> 215)
         then char_of (n + 32) else c)"

definition lower :: "string \<Rightarrow> string" where
  "lower s = map lower_char s"

definition lstrip :: "string \<Rightarrow> string" where
  "lstrip s = dropWhile is_space s"

definition rstrip :: "string \<Rightarrow> string" where
  "rstrip s = rev (dropWhile is_space (rev s))"

definition strip :: "string \<Rightarrow> string" where
  "strip s = rstrip (lstrip s)"

text \<open>\<open>s.strip(c)\<close> for a single character \<open>c\<close>.\<close>

definition strip_char :: "char \<Rightarrow> string \<Rightarrow> string" where
  "strip_char c s = rev (dropWhile (\<lambda>x. x = c) (rev (dropWhile (\<lambda>x. x = c) s)))"

definition startswith :: "string \<Rightarrow> string \<Rightarrow> bool" where
  "startswith s p = (take (length p) s = p)"

text \<open>\<open>sub in s\<close>: some suffix of \<open>s\<close> starts with \<open>sub\<close>.\<close>

fun contains :: "string \<Rightarrow> string \<Rightarrow> bool" where
  "contains [] sub = (sub = [])"
| "contains (c # cs) sub = (startswith (c # cs) sub \<or> contains cs sub)"

text \<open>
  \<open>s.split(sep)\<close> for a separator that is not empty: the occurrences of \<open>sep\<close>
  are found from the left and do not overlap; \<open>cur\<close> is the field being read.
  (Python raises on an empty separator; every call of the program passes a literal.)
\<close>

function py_split :: "string \<Rightarrow> string \<Rightarrow> string \<Rightarrow> string list" where
  "py_split sep cur s =
     (if s = [] then [cur]
      else if sep \<noteq> [] \<and> startswith s sep then cur # py_split sep [] (drop (length sep) s)
      else py_split sep (cur @ [hd s]) (tl s))"
  by pat_completeness auto
termination
  by (relation "measure (\<lambda>(sep, cur, s). length s)") auto

declare py_split.simps [simp del]

definition split :: "string \<Rightarrow> string \<Rightarrow> string list" where
  "split s sep = py_split sep [] s"

datatype py_error = IndexError | ValueError

text \<open>\<open>xs[i]\<close> for an index that is not negative: out of range it raises.\<close>

definition py_index :: "'a list \<Rightarrow> nat \<Rightarrow> py_error + 'a" where
  "py_index xs i = (if i < length xs then Inr (xs ! i) else Inl IndexError)"

definition and_then :: "py_error + 'a \<Rightarrow> ('a \<Rightarrow> py_error + 'b) \<Rightarrow> py_error + 'b" where
  "and_then r f = (case r of Inl e \<Rightarrow> Inl e | Inr x \<Rightarrow> f x)"

definition dquote :: char where
  "dquote = CHR 0x22"

section \<open>NetworkManager\<close>

record network =
  index :: string
  ssid :: string
  vendor :: string
  bssid :: string
  channel :: string
  auth :: string
  rssi :: string
  band :: string

record network_manager =
  networks :: "network list"
  network_count :: nat
  selected_networks :: string
  scan_done :: bool

definition init_network_manager :: network_manager where
  "init_network_manager =
     \<lparr>networks = [], network_count = 0, selected_networks = [], scan_done = False\<rparr>"

text \<open>
  The body of the \<open>try\<close> block of \<open>parse_network_line\<close>, with every subscript
  checked: \<open>Inl\<close> is an exception raised inside the block.
\<close>

definition parse_network_parts :: "string \<Rightarrow> string list" where
  "parse_network_parts line = map (strip_char dquote) (split line [dquote, CHR '','', dquote])"

definition parse_network_try :: "string \<Rightarrow> py_error + network option" where
  "parse_network_try line =
     (let parts = parse_network_parts line
      in if length parts < 8 then Inr None
         else
           and_then (py_index parts 0) (\<lambda>p0.
           and_then (py_index parts 1) (\<lambda>p1.
           and_then (py_index parts 2) (\<lambda>p2.
           and_then (py_index parts 3) (\<lambda>p3.
           and_then (py_index parts 4) (\<lambda>p4.
           and_then (py_index parts 5) (\<lambda>p5.
           and_then (py_index parts 6) (\<lambda>p6.
           and_then (py_index parts 7) (\<lambda>p7.
             Inr (Some \<lparr>index = p0, ssid = (if p1 \<noteq> [] then p1 else ''<hidden>''),
                        vendor = p2, bssid = p3, channel = p4, auth = p5,
                        rssi = p6, band = p7\<rparr>))))))))))"

text \<open>The whole method: the bare \<open>except\<close> turns any exception of the block into \<open>None\<close>.\<close>

definition parse_network_line :: "string \<Rightarrow> network option" where
  "parse_network_line line =
     (if \<not> startswith line [dquote] then None
      else case parse_network_try line of Inl e \<Rightarrow> None | Inr r \<Rightarrow> r)"

definition add_network :: "network_manager \<Rightarrow> string \<Rightarrow> network_manager" where
  "add_network nm line =
     (case parse_network_line line of
        None \<Rightarrow> nm
      | Some n \<Rightarrow> nm\<lparr>networks := networks nm @ [n], network_count := network_count nm + 1\<rparr>)"

definition clear_networks :: "network_manager \<Rightarrow> network_manager" where
  "clear_networks nm = nm\<lparr>networks := [], network_count := 0, scan_done := False\<rparr>"

definition set_selected_networks :: "network_manager \<Rightarrow> string \<Rightarrow> network_manager" where
  "set_selected_networks nm selection = nm\<lparr>selected_networks := selection\<rparr>"

definition csv_delimiter :: string where
  "csv_delimiter = [dquote, CHR '','', dquote]"

text \<open>The record that \<open>parse_network_line\<close> builds from the split and stripped fields.\<close>

definition network_of_parts :: "string list \<Rightarrow> network" where
  "network_of_parts parts =
     \<lparr>index = parts ! 0, ssid = (if parts ! 1 = [] then ''<hidden>'' else parts ! 1),
      vendor = parts ! 2, bssid = parts ! 3, channel = parts ! 4, auth = parts ! 5,
      rssi = parts ! 6, band = parts ! 7\<rparr>"

definition eight_field_line :: string where
  \<open>eight_field_line =
     ''"1","HomeNet","TP-Link","AA:BB:CC:DD:EE:01","6","WPA2","-45","2.4GHz"''\<close>


definition nine_field_line :: string where
  \<open>nine_field_line =
     ''"1","HomeNet","TP-Link","AA:BB:CC:DD:EE:01","6","WPA2","-45","2.4GHz","x"''\<close>

definition nm_invariant :: "network_manager \<Rightarrow> bool" where
  "nm_invariant nm = (network_count nm = length (networks nm))"

section \<open>Regular expressions of the program\<close>

text \<open>
  \<open>re.search(p, s)\<close> tries the pattern at every position of \<open>s\<close> from the left
  (the end of the text included) and returns the first match; \<open>m\<close> is the pattern
  matched at the head of a text.
\<close>

fun re_search :: "(string \<Rightarrow> 'a option) \<Rightarrow> string \<Rightarrow> 'a option" where
  "re_search m [] = m []"
| "re_search m (c # cs) = (case m (c # cs) of Some r \<Rightarrow> Some r | None \<Rightarrow> re_search m cs)"

text \<open>
  A literal of a pattern compiled with \<open>re.IGNORECASE\<close>, given in lower case: on
  the modelled range a character matches a letter of the literal exactly when it is
  that letter in either case.
\<close>

definition startswith_ci :: "string \<Rightarrow> string \<Rightarrow> bool" where
  "startswith_ci s p = (lower (take (length p) s) = p)"

text \<open>The value of a text of decimal digits.\<close>

definition digit_value :: "char \<Rightarrow> nat" where
  "digit_value c = of_char c - 48"

definition int_of_digits :: "string \<Rightarrow> nat" where
  "int_of_digits ds = foldl (\<lambda>n c. 10 * n + digit_value c) 0 ds"

text \<open>
  \<open>int(ds)\<close> for a text of decimal digits, which is what the patterns of the
  program capture: the interpreter refuses a text of more than 4300 digits (the
  default of \<open>sys.int_max_str_digits\<close>, leading zeros counted) with \<open>ValueError\<close>.
\<close>

definition int_max_str_digits :: nat where
  "int_max_str_digits = 4300"

definition py_int :: "string \<Rightarrow> py_error + nat" where
  "py_int ds = (if int_max_str_digits < length ds then Inl ValueError
               else Inr (int_of_digits ds))"

text \<open>
  \<open>(\d+)\s+packets?\<close>, ignoring case, at the head of a text; the result is group 1.
  The three parts cannot trade characters (a digit is no white space, and neither
  is the letter p), so the greedy runs are the only way to match.
\<close>

definition match_packets :: "string \<Rightarrow> string option" where
  "match_packets s =
     (let ds = takeWhile is_digit s; r1 = dropWhile is_digit s;
          ws = takeWhile is_space r1; r2 = dropWhile is_space r1
      in if ds \<noteq> [] \<and> ws \<noteq> [] \<and> startswith_ci r2 ''packet'' then Some ds else None)"

text \<open>\<open>captured:\s*(\d+)\<close>, ignoring case, at the head of a text.\<close>

definition match_captured :: "string \<Rightarrow> string option" where
  "match_captured s =
     (if startswith_ci s ''captured:''
      then (let ds = takeWhile is_digit (dropWhile is_space (drop 9 s))
            in if ds \<noteq> [] then Some ds else None)
      else None)"

text \<open>\<open>Client count = (\d+)\<close> at the head of a text.\<close>

definition match_client_count :: "string \<Rightarrow> string option" where
  "match_client_count s =
     (if startswith s ''Client count = ''
      then (let ds = takeWhile is_digit (drop 15 s)
            in if ds \<noteq> [] then Some ds else None)
      else None)"

text \<open>
  \<open>(.+)$\<close> at the head of a text: the dot matches any character but a newline,
  and \<open>$\<close> matches at the end of the text or before a newline that ends it.
\<close>

definition match_rest_of_line :: "string \<Rightarrow> string option" where
  "match_rest_of_line t =
     (let g = takeWhile (\<lambda>c. c \<noteq> CHR 0x0A) t; u = dropWhile (\<lambda>c. c \<noteq> CHR 0x0A) t
      in if g \<noteq> [] \<and> (u = [] \<or> u = [CHR 0x0A]) then Some g else None)"

text \<open>
  \<open>\s*\<close> followed by \<open>(.+)$\<close>: the white space is taken greedily, \<open>k\<close>
  characters of it at first, and given back one character at a time while the
  rest does not match.
\<close>

fun match_ws_then_rest :: "nat \<Rightarrow> string \<Rightarrow> string option" where
  "match_ws_then_rest 0 t = match_rest_of_line t"
| "match_ws_then_rest (Suc k) t =
     (case match_rest_of_line (drop (Suc k) t) of
        Some g \<Rightarrow> Some g
      | None \<Rightarrow> match_ws_then_rest k t)"

text \<open>\<open>Password:\s*(.+)$\<close> at the head of a text.\<close>

definition match_password :: "string \<Rightarrow> string option" where
  "match_password s =
     (if startswith s ''Password:''
      then match_ws_then_rest (length (takeWhile is_space (drop 9 s))) (drop 9 s)
      else None)"

text \<open>\<open>^[\d\s]+$\<close> with \<open>re.match\<close>: a newline is white space, so the class
  reaches the end of the text or stops at a character that \<open>$\<close> cannot follow.\<close>

definition match_digits_spaces :: "string \<Rightarrow> bool" where
  "match_digits_spaces s = (s \<noteq> [] \<and> list_all (\<lambda>c. is_digit c \<or> is_space c) s)"

section \<open>The serial link\<close>

text \<open>
  \<open>connected\<close> stands for \<open>serial_conn\<close> being set; \<open>written\<close> is what has
  been written to the port, in order. Writes are taken to succeed.
\<close>

record serial_manager =
  connected :: bool
  written :: "string list"

definition send_command :: "serial_manager \<Rightarrow> string \<Rightarrow> serial_manager" where
  "send_command sm command =
     (if \<not> connected sm then sm
      else sm\<lparr>written := written sm @ [command @ [CHR 0x0D, CHR 0x0A]]\<rparr>)"

section \<open>The application state\<close>

text \<open>
  The fields of class \<open>JanOS\<close> that the modelled methods read or write. A thread
  field holds whether a thread object is stored; an event field holds whether the
  event is set. \<open>joined\<close> records the calls of \<open>join\<close>, which change no field.
  What the methods print is not part of the state.
\<close>

datatype listener = SnifferThread | PortalThread | EvilTwinThread

record janos =
  serial_mgr :: serial_manager
  network_mgr :: network_manager
  attack_running :: bool
  blackout_running :: bool
  sniffer_running :: bool
  sae_overflow_running :: bool
  handshake_running :: bool
  portal_running :: bool
  evil_twin_running :: bool
  sniffer_packets :: nat
  sniffer_thread :: bool
  stop_sniffer_event :: bool
  portal_thread :: bool
  stop_portal_event :: bool
  evil_twin_thread :: bool
  stop_evil_twin_event :: bool
  submitted_forms :: nat
  last_submitted_data :: string
  client_count :: nat
  evil_twin_captured_data :: "string list"
  evil_twin_client_count :: nat
  joined :: "listener list"

definition send :: "janos \<Rightarrow> string \<Rightarrow> janos" where
  "send s command = s\<lparr>serial_mgr := send_command (serial_mgr s) command\<rparr>"

definition join_thread :: "listener \<Rightarrow> janos \<Rightarrow> janos" where
  "join_thread t s = s\<lparr>joined := joined s @ [t]\<rparr>"

subsection \<open>update_sniffer_display\<close>

text \<open>
  \<open>Inl\<close> is an exception that leaves the method: \<open>int\<close> raises before the
  counter is assigned.
\<close>

definition update_sniffer_display :: "janos \<Rightarrow> string \<Rightarrow> py_error + janos" where
  "update_sniffer_display s data =
     (case re_search match_packets data of
        Some ds \<Rightarrow> and_then (py_int ds) (\<lambda>n. Inr (s\<lparr>sniffer_packets := n\<rparr>))
      | None \<Rightarrow>
          if contains (lower data) ''captured''
          then (case re_search match_captured data of
                  Some ds \<Rightarrow> and_then (py_int ds) (\<lambda>n. Inr (s\<lparr>sniffer_packets := n\<rparr>))
                | None \<Rightarrow> Inr s)
          else Inr s)"

text \<open>
  One pass of the loop of \<open>read_sniffer_data\<close> that has read the raw line
  \<open>raw\<close>: the callback runs inside \<open>try\<close>, and \<open>except Exception: pass\<close>
  drops whatever it raises.
\<close>

definition read_sniffer_data_line :: "janos \<Rightarrow> string \<Rightarrow> janos" where
  "read_sniffer_data_line s raw =
     (let line = strip raw
      in if line \<noteq> []
            \<and> (contains (lower line) ''packets'' \<or> contains (lower line) ''captured'')
         then (case update_sniffer_display s line of Inl e \<Rightarrow> s | Inr s' \<Rightarrow> s')
         else s)"

subsection \<open>stop_all_attacks\<close>

definition any_running :: "janos \<Rightarrow> bool" where
  "any_running s =
     (attack_running s \<or> blackout_running s \<or> sniffer_running s \<or> sae_overflow_running s
      \<or> handshake_running s \<or> portal_running s \<or> evil_twin_running s)"

definition stop_deauth :: "janos \<Rightarrow> janos" where
  "stop_deauth s =
     (if attack_running s then (send s ''stop'')\<lparr>attack_running := False\<rparr> else s)"

definition stop_blackout :: "janos \<Rightarrow> janos" where
  "stop_blackout s =
     (if blackout_running s then (send s ''stop'')\<lparr>blackout_running := False\<rparr> else s)"

definition stop_sniffer :: "janos \<Rightarrow> janos" where
  "stop_sniffer s =
     (if sniffer_running s
      then (let s1 = (send s ''stop'')\<lparr>sniffer_running := False, stop_sniffer_event := True\<rparr>
            in if sniffer_thread s1 then join_thread SnifferThread s1 else s1)
      else s)"

definition stop_sae_overflow :: "janos \<Rightarrow> janos" where
  "stop_sae_overflow s =
     (if sae_overflow_running s then (send s ''stop'')\<lparr>sae_overflow_running := False\<rparr>
      else s)"

definition stop_handshake :: "janos \<Rightarrow> janos" where
  "stop_handshake s =
     (if handshake_running s then (send s ''stop'')\<lparr>handshake_running := False\<rparr> else s)"

definition stop_portal :: "janos \<Rightarrow> janos" where
  "stop_portal s =
     (if portal_running s
      then (let s1 = (send s ''stop'')\<lparr>portal_running := False, stop_portal_event := True\<rparr>
            in if portal_thread s1 then join_thread PortalThread s1 else s1)
      else s)"

definition stop_evil_twin :: "janos \<Rightarrow> janos" where
  "stop_evil_twin s =
     (if evil_twin_running s
      then (let s1 = (send s ''stop'')\<lparr>evil_twin_running := False,
                        stop_evil_twin_event := True\<rparr>
            in if evil_twin_thread s1 then join_thread EvilTwinThread s1 else s1)
      else s)"

text \<open>The method: the early return when no flag is set, then the seven blocks in turn.\<close>

definition stop_all_attacks :: "janos \<Rightarrow> janos" where
  "stop_all_attacks s =
     (if \<not> any_running s then s
      else stop_evil_twin (stop_portal (stop_handshake (stop_sae_overflow
             (stop_sniffer (stop_blackout (stop_deauth s)))))))"

subsection \<open>What stop_all_attacks is compared with\<close>

datatype feature = Deauth | Blackout | Sniffer | SaeOverflow | Handshake | Portal | EvilTwin

definition running_features :: "janos \<Rightarrow> feature list" where
  "running_features s =
     (if attack_running s then [Deauth] else []) @
     (if blackout_running s then [Blackout] else []) @
     (if sniffer_running s then [Sniffer] else []) @
     (if sae_overflow_running s then [SaeOverflow] else []) @
     (if handshake_running s then [Handshake] else []) @
     (if portal_running s then [Portal] else []) @
     (if evil_twin_running s then [EvilTwin] else [])"

definition running_listeners :: "janos \<Rightarrow> listener list" where
  "running_listeners s =
     (if sniffer_running s \<and> sniffer_thread s then [SnifferThread] else []) @
     (if portal_running s \<and> portal_thread s then [PortalThread] else []) @
     (if evil_twin_running s \<and> evil_twin_thread s then [EvilTwinThread] else [])"

definition stop_line :: string where
  "stop_line = ''stop'' @ [CHR 0x0D, CHR 0x0A]"

definition stop_sent :: "bool \<Rightarrow> serial_manager \<Rightarrow> serial_manager" where
  "stop_sent b sm = (if b then send_command sm ''stop'' else sm)"

definition stop_blocks :: "janos \<Rightarrow> janos" where
  "stop_blocks s = stop_evil_twin (stop_portal (stop_handshake (stop_sae_overflow
             (stop_sniffer (stop_blackout (stop_deauth s))))))"

definition idle_session :: janos where
  "idle_session =
     \<lparr>serial_mgr = \<lparr>connected = True, written = []\<rparr>,
      network_mgr = init_network_manager,
      attack_running = False, blackout_running = False, sniffer_running = False,
      sae_overflow_running = False, handshake_running = False, portal_running = False,
      evil_twin_running = False, sniffer_packets = 0,
      sniffer_thread = False, stop_sniffer_event = False,
      portal_thread = False, stop_portal_event = False,
      evil_twin_thread = False, stop_evil_twin_event = False,
      submitted_forms = 0, last_submitted_data = [], client_count = 0,
      evil_twin_captured_data = [], evil_twin_client_count = 0, joined = []\<rparr>"

definition busy_session :: janos where
  "busy_session =
     idle_session\<lparr>attack_running := True, sniffer_running := True, sniffer_thread := True,
       portal_running := True, portal_thread := True\<rparr>"

subsection \<open>The two line shapes of the packet counter, as the specification words them\<close>

text \<open>
  A decimal integer, white space and the word packet in any letter case; and the
  word captured in any letter case with a colon, optional white space and a decimal
  integer. Either may stand anywhere in the line.
\<close>

definition has_packets_token :: "string \<Rightarrow> bool" where
  "has_packets_token data =
     (\<exists>pre ds ws w post. data = pre @ ds @ ws @ w @ post
        \<and> ds \<noteq> [] \<and> list_all is_digit ds \<and> ws \<noteq> [] \<and> list_all is_space ws
        \<and> lower w = ''packet'')"

definition has_captured_token :: "string \<Rightarrow> bool" where
  "has_captured_token data =
     (\<exists>pre w ws ds post. data = pre @ w @ ws @ ds @ post
        \<and> lower w = ''captured:'' \<and> list_all is_space ws
        \<and> ds \<noteq> [] \<and> list_all is_digit ds)"

text \<open>A line of 4301 digits before the word packets, and one with the number
  \<open>10 ^ 4300\<close>.\<close>

definition huge_packets_line :: string where
  "huge_packets_line = replicate 4301 CHR ''9'' @ '' packets''"

definition googol_packets_line :: string where
  "googol_packets_line = (CHR ''1'' # replicate 4300 CHR ''0'') @ '' packets''"

definition huge_client_count_line :: string where
  "huge_client_count_line = ''Client count = '' @ (CHR ''1'' # replicate 4300 CHR ''0'')"

subsection \<open>update_portal_display\<close>

text \<open>
  What a method prints is returned beside the state, one entry for each call of
  \<open>print\<close>: the colour of the line and its text (without the colour codes and
  the leading newline).
\<close>

datatype colour = GREEN | BLUE | RED | MAGENTA

type_synonym printed = "colour \<times> string"

text \<open>\<open>str(n)\<close> for an integer that is not negative.\<close>

fun str_nat :: "nat \<Rightarrow> string" where
  "str_nat n =
     (if n < 10 then [char_of (48 + n)]
      else str_nat (n div 10) @ [char_of (48 + n mod 10)])"

declare str_nat.simps [simp del]

definition update_portal_display ::
  "janos \<Rightarrow> string \<Rightarrow> py_error + janos \<times> printed list" where
  "update_portal_display s data =
     (if contains data ''Client connected''
      then Inr (s\<lparr>client_count := client_count s + 1\<rparr>, [(GREEN, ''[+] '' @ data)])
      else if contains data ''Client count''
      then (case re_search match_client_count data of
              Some ds \<Rightarrow>
                and_then (py_int ds) (\<lambda>n.
                  Inr (s\<lparr>client_count := n\<rparr>,
                       [(BLUE, ''[*] Connected clients: '' @ str_nat n)]))
            | None \<Rightarrow> Inr (s, []))
      else if contains data ''Password:''
      then (let s1 = s\<lparr>submitted_forms := submitted_forms s + 1\<rparr>
            in case re_search match_password data of
                 Some password \<Rightarrow>
                   Inr (s1\<lparr>last_submitted_data := ''Password: '' @ password\<rparr>,
                        [(GREEN, ''[+] Form submitted!''),
                         (GREEN, ''[+] Password captured: '' @ password)])
               | None \<Rightarrow> Inr (s1, []))
      else if contains data ''Form data:'' \<or> contains (lower data) ''username:''
              \<or> contains (lower data) ''email:''
      then Inr (s\<lparr>submitted_forms := submitted_forms s + 1, last_submitted_data := data\<rparr>,
                [(GREEN, ''[+] Form submitted!''), (GREEN, ''[+] '' @ data)])
      else if contains data ''Portal data saved''
      then Inr (s, [(BLUE, ''[*] '' @ data)])
      else if contains (lower data) ''error'' \<or> contains (lower data) ''failed''
      then Inr (s, [(RED, ''[!] '' @ data)])
      else if contains data ''started successfully'' \<or> contains data ''enabled''
      then Inr (s, [(GREEN, ''[+] '' @ data)])
      else Inr (s, []))"

text \<open>One pass of the loop of \<open>read_portal_data\<close> that has read the raw line \<open>raw\<close>.\<close>

definition read_portal_data_line :: "janos \<Rightarrow> string \<Rightarrow> janos \<times> printed list" where
  "read_portal_data_line s raw =
     (let line = strip raw
      in if line \<noteq> []
         then (case update_portal_display s line of Inl e \<Rightarrow> (s, []) | Inr r \<Rightarrow> r)
         else (s, []))"

subsection \<open>update_evil_twin_display\<close>

text \<open>The method has no subscript and no conversion: no branch can raise.\<close>

definition update_evil_twin_display ::
  "janos \<Rightarrow> string \<Rightarrow> py_error + janos \<times> printed list" where
  "update_evil_twin_display s data =
     (if contains data ''Client connected''
      then Inr (s\<lparr>evil_twin_client_count := evil_twin_client_count s + 1\<rparr>,
                [(GREEN, ''[+] '' @ data)])
      else if contains (lower data) ''trying to connect''
              \<or> contains (lower data) ''association''
      then Inr (s, [(MAGENTA, ''[*] '' @ data)])
      else if contains data ''Password:'' \<or> contains data ''Handshake captured''
      then Inr (s\<lparr>evil_twin_captured_data := evil_twin_captured_data s @ [data]\<rparr>,
                [(MAGENTA, ''[+] '' @ data)])
      else if contains data ''.pcap'' \<or> contains data ''.cap''
              \<or> contains (lower data) ''handshake saved''
      then Inr (s, [(GREEN, ''[+] '' @ data)])
      else if contains (lower data) ''error'' \<or> contains (lower data) ''failed''
      then Inr (s, [(RED, ''[!] '' @ data)])
      else if contains data ''started successfully'' \<or> contains data ''broadcasting''
      then Inr (s, [(GREEN, ''[+] '' @ data)])
      else Inr (s, []))"

subsection \<open>The portal events, as the specification words them\<close>

text \<open>
  An ordered table of predicates on the raw line; the first predicate that holds
  gives the kind of the event, and each kind has one entry in the table of effects.
\<close>

datatype portal_event =
  ClientConnected | ClientCountUpdate | PasswordSubmission | FormSubmission
  | SavedToStorage | ErrorFailure | Success

definition portal_predicates :: "(portal_event \<times> (string \<Rightarrow> bool)) list" where
  "portal_predicates =
     [(ClientConnected, \<lambda>d. contains d ''Client connected''),
      (ClientCountUpdate, \<lambda>d. contains d ''Client count''),
      (PasswordSubmission, \<lambda>d. contains d ''Password:''),
      (FormSubmission, \<lambda>d. contains d ''Form data:'' \<or> contains (lower d) ''username:''
                              \<or> contains (lower d) ''email:''),
      (SavedToStorage, \<lambda>d. contains d ''Portal data saved''),
      (ErrorFailure, \<lambda>d. contains (lower d) ''error'' \<or> contains (lower d) ''failed''),
      (Success, \<lambda>d. contains d ''started successfully'' \<or> contains d ''enabled'')]"

fun first_match :: "('k \<times> (string \<Rightarrow> bool)) list \<Rightarrow> string \<Rightarrow> 'k option" where
  "first_match [] d = None"
| "first_match ((k, p) # rest) d = (if p d then Some k else first_match rest d)"

definition classify_portal :: "string \<Rightarrow> portal_event option" where
  "classify_portal d = first_match portal_predicates d"

fun portal_effect ::
  "portal_event \<Rightarrow> string \<Rightarrow> janos \<Rightarrow> py_error + janos \<times> printed list" where
  "portal_effect ClientConnected d s =
     Inr (s\<lparr>client_count := client_count s + 1\<rparr>, [(GREEN, ''[+] '' @ d)])"
| "portal_effect ClientCountUpdate d s =
     (case re_search match_client_count d of
        Some ds \<Rightarrow>
          (if int_max_str_digits < length ds then Inl ValueError
           else Inr (s\<lparr>client_count := int_of_digits ds\<rparr>,
                     [(BLUE, ''[*] Connected clients: '' @ str_nat (int_of_digits ds))]))
      | None \<Rightarrow> Inr (s, []))"
| "portal_effect PasswordSubmission d s =
     (case re_search match_password d of
        Some password \<Rightarrow>
          Inr (s\<lparr>submitted_forms := submitted_forms s + 1,
                 last_submitted_data := ''Password: '' @ password\<rparr>,
               [(GREEN, ''[+] Form submitted!''),
                (GREEN, ''[+] Password captured: '' @ password)])
      | None \<Rightarrow> Inr (s\<lparr>submitted_forms := submitted_forms s + 1\<rparr>, []))"
| "portal_effect FormSubmission d s =
     Inr (s\<lparr>submitted_forms := submitted_forms s + 1, last_submitted_data := d\<rparr>,
          [(GREEN, ''[+] Form submitted!''), (GREEN, ''[+] '' @ d)])"
| "portal_effect SavedToStorage d s = Inr (s, [(BLUE, ''[*] '' @ d)])"
| "portal_effect ErrorFailure d s = Inr (s, [(RED, ''[!] '' @ d)])"
| "portal_effect Success d s = Inr (s, [(GREEN, ''[+] '' @ d)])"

definition password_error_line :: string where
  "password_error_line = ''Password: hunter2 (login error)''"

subsection \<open>select_networks_menu\<close>

text \<open>\<open>sep.join(xs)\<close>.\<close>

fun join :: "string \<Rightarrow> string list \<Rightarrow> string" where
  "join sep [] = []"
| "join sep [x] = x"
| "join sep (x # y # ys) = x @ sep @ join sep (y # ys)"

text \<open>
  The method from the first test on; \<open>inp\<close> is what \<open>input\<close> returns, \<open>None\<close>
  when it raises \<open>EOFError\<close>.
\<close>

definition select_networks_menu :: "janos \<Rightarrow> string option \<Rightarrow> janos" where
  "select_networks_menu s inp =
     (if network_count (network_mgr s) = 0 then s
      else case inp of
        None \<Rightarrow> s
      | Some raw \<Rightarrow>
          (let selection = strip raw
           in if selection = [] then s
              else
                (let selection =
                       (if lower selection = ''all''
                        then join '' '' (map (\<lambda>i. str_nat (i + 1))
                                              [0..<network_count (network_mgr s)])
                        else selection)
                 in if \<not> match_digits_spaces selection then s
                    else (send (s\<lparr>network_mgr :=
                                       set_selected_networks (network_mgr s) selection\<rparr>)
                               (''select_networks '' @ selection)))))"

text \<open>A character outside the digits and the white space.\<close>

definition other_char :: "char \<Rightarrow> bool" where
  "other_char c = (\<not> is_digit c \<and> \<not> is_space c)"

text \<open>A session after a scan that found five networks.\<close>

definition quoted_line :: "string list \<Rightarrow> string" where
  "quoted_line fs = [dquote] @ join csv_delimiter fs @ [dquote]"

definition five_network_lines :: "string list" where
  "five_network_lines =
     map (\<lambda>i. quoted_line [str_nat i, ''Net'' @ str_nat i, ''Vendor'',
                            ''AA:BB:CC:DD:EE:0'' @ str_nat i, ''6'', ''WPA2'', ''-50'',
                            ''2.4GHz''])
         [1..<6]"

definition five_networks_session :: janos where
  "five_networks_session =
     idle_session\<lparr>network_mgr := foldl add_network init_network_manager five_network_lines\<rparr>"

subsection \<open>The probe rows of show_sniffer_probes\<close>

text \<open>
  \<open>([0-9A-Fa-f]{2}[:-]){5}([0-9A-Fa-f]{2})\<close> at the head of a text: \<open>n\<close>
  pairs of hexadecimal digits each followed by a colon or a hyphen, then one pair.
\<close>

fun mac_pairs :: "nat \<Rightarrow> string \<Rightarrow> bool" where
  "mac_pairs 0 s = (case s of a # b # rest \<Rightarrow> is_hex a \<and> is_hex b | _ \<Rightarrow> False)"
| "mac_pairs (Suc n) s =
     (case s of
        a # b # c # rest \<Rightarrow>
          is_hex a \<and> is_hex b \<and> (c = CHR '':'' \<or> c = CHR ''-'') \<and> mac_pairs n rest
      | _ \<Rightarrow> False)"

definition match_mac :: "string \<Rightarrow> string option" where
  "match_mac s = (if mac_pairs 5 s then Some (take 17 s) else None)"

text \<open>
  \<open>(-?\d+)\s*dBm?\<close>, ignoring case, at the head of a text; the result is group 1.
  The question mark binds the letter m alone, so the letters d and B must follow
  the digits. When the text starts with a minus sign and the rest does not match,
  matching the optional sign against nothing leaves the sign where a digit is needed.
\<close>

definition match_rssi_digits :: "string \<Rightarrow> string option" where
  "match_rssi_digits s =
     (let ds = takeWhile is_digit s; r = dropWhile is_space (dropWhile is_digit s)
      in if ds \<noteq> [] \<and> startswith_ci r ''db'' then Some ds else None)"

definition match_rssi :: "string \<Rightarrow> string option" where
  "match_rssi s =
     (case s of
        [] \<Rightarrow> None
      | c # t \<Rightarrow>
          if c = CHR ''-''
          then (case match_rssi_digits t of Some ds \<Rightarrow> Some (c # ds) | None \<Rightarrow> None)
          else match_rssi_digits s)"

text \<open>\<open>\[(\d+:\d+:\d+)\]\<close> at the head of a text.\<close>

definition match_time :: "string \<Rightarrow> string option" where
  "match_time s =
     (case s of
        [] \<Rightarrow> None
      | c # t \<Rightarrow>
          (let h = takeWhile is_digit t; r1 = dropWhile is_digit t;
               m = takeWhile is_digit (drop 1 r1); r2 = dropWhile is_digit (drop 1 r1);
               x = takeWhile is_digit (drop 1 r2); r3 = dropWhile is_digit (drop 1 r2)
           in if c = CHR ''['' \<and> h \<noteq> [] \<and> startswith r1 '':'' \<and> m \<noteq> []
                 \<and> startswith r2 '':'' \<and> x \<noteq> [] \<and> startswith r3 '']''
              then Some (h @ '':'' @ m @ '':'' @ x) else None))"

record probe =
  client_mac :: string
  probe_ssid :: string
  probe_rssi :: string
  timestamp :: string

text \<open>The test that lets a line of the response into the table.\<close>

definition is_probe_row :: "string \<Rightarrow> bool" where
  "is_probe_row line =
     (line \<noteq> [] \<and> \<not> startswith line ''Probe'' \<and> \<not> startswith line ''Total'')"

definition ssid_or_hidden :: "string \<Rightarrow> string" where
  "ssid_or_hidden ssid_part =
     (if ssid_part \<noteq> [] \<and> ssid_part \<noteq> ''N/A'' \<and> ssid_part \<noteq> ''unknown''
      then ssid_part else ''<hidden>'')"

text \<open>The SSID of a row: the three markers in the order of the \<open>if\<close> chain.\<close>

definition probe_row_ssid :: "string \<Rightarrow> py_error + string" where
  "probe_row_ssid line =
     (if contains line ''SSID:''
      then and_then (py_index (split line ''SSID:'') 1) (\<lambda>after.
           and_then (py_index (split after '','') 0) (\<lambda>part.
             Inr (ssid_or_hidden (strip part))))
      else if contains line ''->''
      then and_then (py_index (split line ''->'') 1) (\<lambda>after.
           and_then (py_index (split after ''('') 0) (\<lambda>part.
             Inr (ssid_or_hidden (strip part))))
      else if contains line ''looking for''
      then and_then (py_index (split line ''looking for'') 1) (\<lambda>after.
             Inr (ssid_or_hidden (strip after)))
      else Inr ''<hidden>'')"

text \<open>
  The fields of one row, as the loop body of \<open>show_sniffer_probes\<close> computes them
  before printing: MAC, SSID, RSSI, time stamp, and the cut of a long SSID.
\<close>

definition probe_row :: "string \<Rightarrow> py_error + probe" where
  "probe_row line =
     (let mac = (case re_search match_mac line of Some m \<Rightarrow> m | None \<Rightarrow> ''N/A'')
      in and_then (probe_row_ssid line) (\<lambda>ssid.
         (let rssi = (case re_search match_rssi line of
                        Some g \<Rightarrow> g @ ''dBm'' | None \<Rightarrow> ''N/A'');
              ts = (case re_search match_time line of Some g \<Rightarrow> g | None \<Rightarrow> []);
              ssid' = (if length ssid > 30 then take 27 ssid @ ''...'' else ssid)
          in Inr \<lparr>client_mac = mac, probe_ssid = ssid', probe_rssi = rssi,
                  timestamp = ts\<rparr>)))"

definition probe_example_line :: string where
  "probe_example_line = ''Client: AA:BB:CC:DD:EE:FF, SSID: Home, RSSI: -60''"

section \<open>Timed reading\<close>

text \<open>
  Time is a clock in milliseconds, and the port is seen through what each pass of a
  reading loop observes: no data waiting (the loop then sleeps 0.1 s), a line read
  (the raw text, and the time the read took), or a read that raised (and the time it
  took). \<open>feed\<close> lists the observations to come; once it is used up no more data
  arrives.
\<close>

datatype poll = NoData | Line string nat | ReadError nat

record world =
  clock :: int
  feed :: "poll list"

text \<open>
  The loop of \<open>read_response\<close>: \<open>start\<close> is \<open>start_time\<close>, \<open>now\<close> the
  clock, \<open>lines\<close> the list built so far. It returns the list with the clock
  and the feed it leaves.
\<close>

function read_loop ::
  "int \<Rightarrow> int \<Rightarrow> int \<Rightarrow> poll list \<Rightarrow> string list \<Rightarrow> string list \<times> int \<times> poll list" where
  "read_loop start timeout now fd lines =
     (if now - start < timeout
      then (case fd of
              [] \<Rightarrow> read_loop start timeout (now + 100) [] lines
            | NoData # rest \<Rightarrow> read_loop start timeout (now + 100) rest lines
            | Line raw dt # rest \<Rightarrow>
                (let line = strip raw
                 in read_loop start timeout (now + int dt) rest
                      (if line \<noteq> [] then lines @ [line] else lines))
            | ReadError dt # rest \<Rightarrow> read_loop start timeout (now + int dt) rest lines)
      else (lines, now, fd))"
  by pat_completeness auto
termination
  by (relation "measures [\<lambda>(start, timeout, now, fd, lines). length fd,
                          \<lambda>(start, timeout, now, fd, lines). nat (start + timeout - now)]")
     auto

declare read_loop.simps [simp del]

definition read_response ::
  "serial_manager \<Rightarrow> int \<Rightarrow> world \<Rightarrow> string list \<times> world" where
  "read_response sm timeout w =
     (if \<not> connected sm then ([], w)
      else (case read_loop (clock w) timeout (clock w) (feed w) [] of
              (lines, now, fd) \<Rightarrow> (lines, \<lparr>clock = now, feed = fd\<rparr>)))"








subsection \<open>What read_response is compared with\<close>

text \<open>
  The lines of a run of observations (trimmed, the empty ones dropped), the time an
  observation takes, and whether every observation of a run starts before the
  deadline.
\<close>

fun lines_of :: "poll list \<Rightarrow> string list" where
  "lines_of [] = []"
| "lines_of (NoData # ps) = lines_of ps"
| "lines_of (Line raw dt # ps) = (if strip raw \<noteq> [] then [strip raw] else []) @ lines_of ps"
| "lines_of (ReadError dt # ps) = lines_of ps"

fun duration :: "poll \<Rightarrow> int" where
  "duration NoData = 100"
| "duration (Line raw dt) = int dt"
| "duration (ReadError dt) = int dt"

fun within_window :: "int \<Rightarrow> int \<Rightarrow> poll list \<Rightarrow> bool" where
  "within_window now deadline [] = True"
| "within_window now deadline (p # ps) =
     (now < deadline \<and> within_window (now + duration p) deadline ps)"

text \<open>
  The observations that arrive within the window: from the head of the feed, as long
  as each starts before the deadline.
\<close>

fun window_prefix :: "int \<Rightarrow> int \<Rightarrow> poll list \<Rightarrow> poll list" where
  "window_prefix now deadline [] = []"
| "window_prefix now deadline (p # ps) =
     (if now < deadline then p # window_prefix (now + duration p) deadline ps else [])"

definition early_world :: world where
  "early_world = \<lparr>clock = 0, feed = [Line ''a'' 1, Line ''b'' 1]\<rparr>"

definition blank_line_world :: world where
  "blank_line_world = \<lparr>clock = 0, feed = [Line ''a'' 1, NoData, Line ''  '' 0, Line '' b '' 1]\<rparr>"

definition port :: serial_manager where
  "port = \<lparr>connected = True, written = []\<rparr>"

subsection \<open>do_scan\<close>




section \<open>The network-line classifier\<close>

lemma parse_network_try_Inr:
  "parse_network_try line =
     Inr (if length (parse_network_parts line) < 8 then None
          else Some (network_of_parts (parse_network_parts line)))"
  by (simp add: parse_network_try_def Let_def py_index_def and_then_def network_of_parts_def)

lemma length_parse_network_parts:
  "length (parse_network_parts line) = length (split line csv_delimiter)"
  by (simp add: parse_network_parts_def csv_delimiter_def)

text \<open>
  C1, as the code has it. A line yields a record exactly when it begins with a quote
  character and splitting it on the delimiter \<open>","\<close> yields at least 8 fields (the
  guard of the code is \<open>len(parts) < 8\<close>); the record is built from the first eight
  fields, positionally, with an empty ssid replaced by \<open><hidden>\<close>, and any further
  field is ignored. Every other line yields no record.
\<close>

theorem parse_network_line_at_least_8:
  "parse_network_line line =
     (if startswith line [dquote] \<and> 8 \<le> length (split line csv_delimiter)
      then Some (network_of_parts (map (strip_char dquote) (split line csv_delimiter)))
      else None)"
  by (simp add: parse_network_line_def parse_network_try_Inr length_parse_network_parts)
     (simp add: parse_network_parts_def csv_delimiter_def)

theorem parse_network_line_at_least_8_witness:
  "parse_network_line eight_field_line =
     Some \<lparr>index = ''1'', ssid = ''HomeNet'', vendor = ''TP-Link'',
       bssid = ''AA:BB:CC:DD:EE:01'', channel = ''6'', auth = ''WPA2'',
       rssi = ''-45'', band = ''2.4GHz''\<rparr>"
proof -
  have a: "startswith eight_field_line [dquote]"
    unfolding eight_field_line_def by code_simp
  have b: "length (split eight_field_line csv_delimiter) = 8"
    unfolding eight_field_line_def csv_delimiter_def by code_simp
  have c: "network_of_parts (map (strip_char dquote) (split eight_field_line csv_delimiter)) =
     \<lparr>index = ''1'', ssid = ''HomeNet'', vendor = ''TP-Link'',
       bssid = ''AA:BB:CC:DD:EE:01'', channel = ''6'', auth = ''WPA2'',
       rssi = ''-45'', band = ''2.4GHz''\<rparr>"
    unfolding eight_field_line_def csv_delimiter_def by code_simp
  show ?thesis
    using parse_network_line_at_least_8 [of eight_field_line] a b c by simp
qed

text \<open>
  C1 as stated ("if and only if ... exactly 8 fields") fails: a line of nine quoted
  fields splits into 9 fields, not 8, and still yields a record.
\<close>

theorem parse_network_line_nine_fields:
  "parse_network_line nine_field_line =
     Some \<lparr>index = ''1'', ssid = ''HomeNet'', vendor = ''TP-Link'',
       bssid = ''AA:BB:CC:DD:EE:01'', channel = ''6'', auth = ''WPA2'',
       rssi = ''-45'', band = ''2.4GHz''\<rparr>
   \<and> length (split nine_field_line csv_delimiter) = 9"
  unfolding nine_field_line_def csv_delimiter_def by code_simp

section \<open>The invariant of NetworkManager\<close>

lemma add_network_effect:
  "add_network nm line =
     (case parse_network_line line of
        None \<Rightarrow> nm
      | Some n \<Rightarrow> nm\<lparr>networks := networks nm @ [n], network_count := Suc (network_count nm)\<rparr>)"
  by (simp add: add_network_def split: option.splits)

text \<open>
  C10. \<open>network_count\<close> equals the length of \<open>networks\<close> in the initial state, and
  every operation of NetworkManager keeps it so: \<open>add_network\<close> either changes
  nothing or appends one record and adds one to the count, \<open>clear_networks\<close>
  empties the list and zeroes the count, \<open>set_selected_networks\<close> touches neither.
\<close>

theorem network_count_invariant:
  assumes "nm_invariant nm"
  shows "nm_invariant init_network_manager
    \<and> nm_invariant (add_network nm line)
    \<and> (length (networks (add_network nm line)) = length (networks nm)
          \<and> network_count (add_network nm line) = network_count nm
        \<or> length (networks (add_network nm line)) = length (networks nm) + 1
          \<and> network_count (add_network nm line) = network_count nm + 1)
    \<and> nm_invariant (clear_networks nm)
    \<and> networks (clear_networks nm) = [] \<and> network_count (clear_networks nm) = 0
    \<and> nm_invariant (set_selected_networks nm selection)
    \<and> networks (set_selected_networks nm selection) = networks nm
    \<and> network_count (set_selected_networks nm selection) = network_count nm"
  using assms
  by (cases "parse_network_line line")
     (simp_all add: nm_invariant_def init_network_manager_def add_network_effect
        clear_networks_def set_selected_networks_def)

theorem network_count_invariant_witness:
  "nm_invariant init_network_manager
   \<and> nm_invariant (add_network init_network_manager eight_field_line)
   \<and> network_count (add_network init_network_manager eight_field_line) = 1
   \<and> nm_invariant (clear_networks init_network_manager)
   \<and> nm_invariant (set_selected_networks init_network_manager ''1 2'')"
proof -
  have i: "nm_invariant init_network_manager"
    by (simp add: nm_invariant_def init_network_manager_def)
  have p: "parse_network_line eight_field_line \<noteq> None"
    unfolding eight_field_line_def by code_simp
  have c: "network_count (add_network init_network_manager eight_field_line) = 1"
    using p by (auto simp: add_network_effect init_network_manager_def)
  show ?thesis
    using network_count_invariant [OF i, of eight_field_line "''1 2''"] c by simp
qed

section \<open>Stopping every feature\<close>

lemma written_stop_sent:
  "written (stop_sent b sm) = written sm @ (if b \<and> connected sm then [stop_line] else [])"
  by (simp add: stop_sent_def send_command_def stop_line_def)

lemma connected_stop_sent: "connected (stop_sent b sm) = connected sm"
  by (simp add: stop_sent_def send_command_def)

lemma stop_deauth_eq:
  "stop_deauth s = s\<lparr>serial_mgr := stop_sent (attack_running s) (serial_mgr s),
                      attack_running := False\<rparr>"
  by (cases s) (simp add: stop_deauth_def send_def stop_sent_def)

lemma stop_blackout_eq:
  "stop_blackout s = s\<lparr>serial_mgr := stop_sent (blackout_running s) (serial_mgr s),
                      blackout_running := False\<rparr>"
  by (cases s) (simp add: stop_blackout_def send_def stop_sent_def)

lemma stop_sae_overflow_eq:
  "stop_sae_overflow s = s\<lparr>serial_mgr := stop_sent (sae_overflow_running s) (serial_mgr s),
                      sae_overflow_running := False\<rparr>"
  by (cases s) (simp add: stop_sae_overflow_def send_def stop_sent_def)

lemma stop_handshake_eq:
  "stop_handshake s = s\<lparr>serial_mgr := stop_sent (handshake_running s) (serial_mgr s),
                      handshake_running := False\<rparr>"
  by (cases s) (simp add: stop_handshake_def send_def stop_sent_def)

lemma stop_sniffer_eq:
  "stop_sniffer s = s\<lparr>serial_mgr := stop_sent (sniffer_running s) (serial_mgr s),
      sniffer_running := False,
      stop_sniffer_event := (stop_sniffer_event s \<or> sniffer_running s),
      joined := joined s @ (if sniffer_running s \<and> sniffer_thread s then [SnifferThread] else [])\<rparr>"
  by (cases s) (simp add: stop_sniffer_def send_def stop_sent_def join_thread_def Let_def)

lemma stop_portal_eq:
  "stop_portal s = s\<lparr>serial_mgr := stop_sent (portal_running s) (serial_mgr s),
      portal_running := False,
      stop_portal_event := (stop_portal_event s \<or> portal_running s),
      joined := joined s @ (if portal_running s \<and> portal_thread s then [PortalThread] else [])\<rparr>"
  by (cases s) (simp add: stop_portal_def send_def stop_sent_def join_thread_def Let_def)

lemma stop_evil_twin_eq:
  "stop_evil_twin s = s\<lparr>serial_mgr := stop_sent (evil_twin_running s) (serial_mgr s),
      evil_twin_running := False,
      stop_evil_twin_event := (stop_evil_twin_event s \<or> evil_twin_running s),
      joined := joined s @ (if evil_twin_running s \<and> evil_twin_thread s then [EvilTwinThread] else [])\<rparr>"
  by (cases s) (simp add: stop_evil_twin_def send_def stop_sent_def join_thread_def Let_def)

lemmas stop_eqs = stop_deauth_eq stop_blackout_eq stop_sniffer_eq stop_sae_overflow_eq
  stop_handshake_eq stop_portal_eq stop_evil_twin_eq

lemma stop_all_attacks_blocks: "stop_all_attacks s = stop_blocks s"
proof (cases "any_running s")
  case True
  then show ?thesis by (simp add: stop_all_attacks_def stop_blocks_def)
next
  case False
  then have "stop_blocks s = s"
    by (simp add: any_running_def stop_blocks_def stop_deauth_def stop_blackout_def
        stop_sniffer_def stop_sae_overflow_def stop_handshake_def stop_portal_def
        stop_evil_twin_def)
  with False show ?thesis by (simp add: stop_all_attacks_def)
qed

lemma stop_all_noop: "\<not> any_running s \<Longrightarrow> stop_all_attacks s = s"
  by (simp add: stop_all_attacks_def)

lemma stop_all_clears: "\<not> any_running (stop_all_attacks s)"
  by (simp add: stop_all_attacks_blocks stop_blocks_def stop_eqs any_running_def)

lemma stop_all_connected:
  "connected (serial_mgr (stop_all_attacks s)) = connected (serial_mgr s)"
  by (simp add: stop_all_attacks_blocks stop_blocks_def stop_eqs connected_stop_sent)

lemma stop_all_written:
  "written (serial_mgr (stop_all_attacks s)) =
     written (serial_mgr s) @
       (if connected (serial_mgr s) then map (\<lambda>f. stop_line) (running_features s) else [])"
  by (simp add: stop_all_attacks_blocks stop_blocks_def stop_eqs connected_stop_sent
      written_stop_sent running_features_def)

lemma stop_all_joined:
  "joined (stop_all_attacks s) = joined s @ running_listeners s"
  by (simp add: stop_all_attacks_blocks stop_blocks_def stop_eqs running_listeners_def)

lemma stop_all_events:
  "stop_sniffer_event (stop_all_attacks s) = (stop_sniffer_event s \<or> sniffer_running s)"
  "stop_portal_event (stop_all_attacks s) = (stop_portal_event s \<or> portal_running s)"
  "stop_evil_twin_event (stop_all_attacks s) = (stop_evil_twin_event s \<or> evil_twin_running s)"
  by (simp_all add: stop_all_attacks_blocks stop_blocks_def stop_eqs)


lemma stop_all_record:
  "stop_all_attacks s =
     s\<lparr>serial_mgr := (serial_mgr s)\<lparr>written := written (serial_mgr s) @
           (if connected (serial_mgr s) then map (\<lambda>f. stop_line) (running_features s) else [])\<rparr>,
       attack_running := False, blackout_running := False, sniffer_running := False,
       sae_overflow_running := False, handshake_running := False, portal_running := False,
       evil_twin_running := False,
       stop_sniffer_event := (stop_sniffer_event s \<or> sniffer_running s),
       stop_portal_event := (stop_portal_event s \<or> portal_running s),
       stop_evil_twin_event := (stop_evil_twin_event s \<or> evil_twin_running s),
       joined := joined s @ running_listeners s\<rparr>"
proof -
  have sm: "serial_mgr (stop_all_attacks s) = (serial_mgr s)\<lparr>written := written (serial_mgr s) @
           (if connected (serial_mgr s) then map (\<lambda>f. stop_line) (running_features s) else [])\<rparr>"
    using stop_all_written [of s] stop_all_connected [of s]
    by (cases "serial_mgr (stop_all_attacks s)"; cases "serial_mgr s") simp
  have rest: "stop_all_attacks s = s\<lparr>serial_mgr := serial_mgr (stop_all_attacks s),
       attack_running := False, blackout_running := False, sniffer_running := False,
       sae_overflow_running := False, handshake_running := False, portal_running := False,
       evil_twin_running := False,
       stop_sniffer_event := (stop_sniffer_event s \<or> sniffer_running s),
       stop_portal_event := (stop_portal_event s \<or> portal_running s),
       stop_evil_twin_event := (stop_evil_twin_event s \<or> evil_twin_running s),
       joined := joined s @ running_listeners s\<rparr>"
    by (simp add: stop_all_attacks_blocks stop_blocks_def stop_eqs running_listeners_def)
  show ?thesis using rest sm by simp
qed

text \<open>
  C6. With no running flag set, \<open>stop_all_attacks\<close> returns the state as it is:
  nothing is written to the port. Otherwise it writes one \<open>stop\<close> command for each
  feature whose flag was set, clears every flag, sets the stop event of each listener
  feature that was running and joins its thread once (when one is stored), and leaves
  every other field alone. After a call no flag is set, so a second call in a row
  changes nothing: the operation is idempotent.
\<close>

theorem stop_all_attacks_idempotent:
  "(\<not> any_running s \<longrightarrow> stop_all_attacks s = s)
   \<and> \<not> any_running (stop_all_attacks s)
   \<and> stop_all_attacks s =
       s\<lparr>serial_mgr := (serial_mgr s)\<lparr>written := written (serial_mgr s) @
             (if connected (serial_mgr s) then map (\<lambda>f. stop_line) (running_features s)
              else [])\<rparr>,
         attack_running := False, blackout_running := False, sniffer_running := False,
         sae_overflow_running := False, handshake_running := False, portal_running := False,
         evil_twin_running := False,
         stop_sniffer_event := (stop_sniffer_event s \<or> sniffer_running s),
         stop_portal_event := (stop_portal_event s \<or> portal_running s),
         stop_evil_twin_event := (stop_evil_twin_event s \<or> evil_twin_running s),
         joined := joined s @ running_listeners s\<rparr>
   \<and> stop_all_attacks (stop_all_attacks s) = stop_all_attacks s"
proof (intro conjI impI)
  show "\<not> any_running (stop_all_attacks s)" by (rule stop_all_clears)
  then show "stop_all_attacks (stop_all_attacks s) = stop_all_attacks s"
    by (rule stop_all_noop)
qed (rule stop_all_noop, assumption, rule stop_all_record)

theorem stop_all_attacks_idempotent_witness:
  "\<not> any_running idle_session \<and> stop_all_attacks idle_session = idle_session
   \<and> running_features busy_session = [Deauth, Sniffer, Portal]
   \<and> written (serial_mgr (stop_all_attacks busy_session)) = [stop_line, stop_line, stop_line]
   \<and> joined (stop_all_attacks busy_session) = [SnifferThread, PortalThread]
   \<and> stop_all_attacks (stop_all_attacks busy_session) = stop_all_attacks busy_session"
proof -
  have i: "\<not> any_running idle_session"
    by (simp add: any_running_def idle_session_def)
  have f: "running_features busy_session = [Deauth, Sniffer, Portal]"
    by (simp add: running_features_def busy_session_def idle_session_def)
  have l: "running_listeners busy_session = [SnifferThread, PortalThread]"
    by (simp add: running_listeners_def busy_session_def idle_session_def)
  have c: "connected (serial_mgr busy_session)" "written (serial_mgr busy_session) = []"
      "joined busy_session = []"
    by (simp_all add: busy_session_def idle_session_def)
  note busy = stop_all_attacks_idempotent [of busy_session]
  note idle = stop_all_attacks_idempotent [of idle_session]
  from busy have r: "stop_all_attacks busy_session =
       busy_session\<lparr>serial_mgr := (serial_mgr busy_session)\<lparr>written := written (serial_mgr busy_session) @
             (if connected (serial_mgr busy_session) then map (\<lambda>f. stop_line) (running_features busy_session)
              else [])\<rparr>,
         attack_running := False, blackout_running := False, sniffer_running := False,
         sae_overflow_running := False, handshake_running := False, portal_running := False,
         evil_twin_running := False,
         stop_sniffer_event := (stop_sniffer_event busy_session \<or> sniffer_running busy_session),
         stop_portal_event := (stop_portal_event busy_session \<or> portal_running busy_session),
         stop_evil_twin_event := (stop_evil_twin_event busy_session \<or> evil_twin_running busy_session),
         joined := joined busy_session @ running_listeners busy_session\<rparr>"
    by blast
  have w: "written (serial_mgr (stop_all_attacks busy_session)) = [stop_line, stop_line, stop_line]"
    by (subst r) (simp add: f c)
  have j: "joined (stop_all_attacks busy_session) = [SnifferThread, PortalThread]"
    by (subst r) (simp add: l c)
  from idle i have n: "stop_all_attacks idle_session = idle_session" by blast
  from busy have d: "stop_all_attacks (stop_all_attacks busy_session) = stop_all_attacks busy_session"
    by blast
  show ?thesis using i n f w j d by blast
qed

section \<open>The packet counter\<close>

lemma re_search_iff:
  "(re_search m s \<noteq> None) = (\<exists>pre suf. s = pre @ suf \<and> m suf \<noteq> None)"
proof (induction s)
  case Nil
  then show ?case by simp
next
  case (Cons c cs)
  show ?case
  proof (cases "m (c # cs)")
    case None
    have "(\<exists>pre suf. c # cs = pre @ suf \<and> m suf \<noteq> None) =
          (\<exists>pre suf. cs = pre @ suf \<and> m suf \<noteq> None)"
    proof
      assume "\<exists>pre suf. c # cs = pre @ suf \<and> m suf \<noteq> None"
      then obtain pre suf where h: "c # cs = pre @ suf" "m suf \<noteq> None" by blast
      with None obtain p' where "pre = c # p'" by (cases pre) auto
      with h show "\<exists>pre suf. cs = pre @ suf \<and> m suf \<noteq> None" by auto
    next
      assume "\<exists>pre suf. cs = pre @ suf \<and> m suf \<noteq> None"
      then obtain pre suf where "cs = pre @ suf" "m suf \<noteq> None" by blast
      then have "c # cs = (c # pre) @ suf \<and> m suf \<noteq> None" by simp
      then show "\<exists>pre suf. c # cs = pre @ suf \<and> m suf \<noteq> None" by blast
    qed
    with None Cons show ?thesis by simp
  next
    case (Some r)
    then have "c # cs = [] @ (c # cs) \<and> m (c # cs) \<noteq> None" by simp
    then have "\<exists>pre suf. c # cs = pre @ suf \<and> m suf \<noteq> None" by blast
    with Some show ?thesis by simp
  qed
qed

lemma space_not_digit: "is_space c \<Longrightarrow> \<not> is_digit c"
  by (auto simp: is_space_def is_digit_def Let_def)

lemma lower_p_not_space: "lower_char c = CHR ''p'' \<Longrightarrow> \<not> is_space c"
  by (auto simp: is_space_def lower_char_def Let_def split: if_splits)

lemma takeWhile_all: "list_all P xs \<Longrightarrow> (ys = [] \<or> \<not> P (hd ys)) \<Longrightarrow> takeWhile P (xs @ ys) = xs"
  by (induction xs) (cases ys; auto)+

lemma dropWhile_all: "list_all P xs \<Longrightarrow> (ys = [] \<or> \<not> P (hd ys)) \<Longrightarrow> dropWhile P (xs @ ys) = ys"
  by (induction xs) (cases ys; auto)+

lemma list_all_takeWhile: "list_all P (takeWhile P xs)"
  by (induction xs) auto

lemma match_packets_iff:
  "(match_packets s \<noteq> None) =
     (\<exists>ds ws w post. s = ds @ ws @ w @ post
        \<and> ds \<noteq> [] \<and> list_all is_digit ds \<and> ws \<noteq> [] \<and> list_all is_space ws
        \<and> lower w = ''packet'')"
proof
  assume m: "match_packets s \<noteq> None"
  define ds where "ds = takeWhile is_digit s"
  define r1 where "r1 = dropWhile is_digit s"
  define ws where "ws = takeWhile is_space r1"
  define r2 where "r2 = dropWhile is_space r1"
  from m have a: "ds \<noteq> []" "ws \<noteq> []" "lower (take 6 r2) = ''packet''"
    by (auto simp: match_packets_def Let_def ds_def r1_def ws_def r2_def startswith_ci_def
        eval_nat_numeral split: if_splits)
  have "s = ds @ ws @ take 6 r2 @ drop 6 r2"
    by (simp add: ds_def r1_def ws_def r2_def)
  moreover have "list_all is_digit ds" "list_all is_space ws"
    by (simp_all add: ds_def ws_def list_all_takeWhile)
  ultimately show "\<exists>ds ws w post. s = ds @ ws @ w @ post
        \<and> ds \<noteq> [] \<and> list_all is_digit ds \<and> ws \<noteq> [] \<and> list_all is_space ws
        \<and> lower w = ''packet''"
    using a by blast
next
  assume "\<exists>ds ws w post. s = ds @ ws @ w @ post
        \<and> ds \<noteq> [] \<and> list_all is_digit ds \<and> ws \<noteq> [] \<and> list_all is_space ws
        \<and> lower w = ''packet''"
  then obtain ds ws w post where h: "s = ds @ ws @ w @ post" "ds \<noteq> []" "list_all is_digit ds"
     "ws \<noteq> []" "list_all is_space ws" "lower w = ''packet''" by blast
  from h(4,5) have nd: "\<not> is_digit (hd (ws @ w @ post))"
    by (cases ws) (auto simp: space_not_digit)
  from h(6) have lw: "length w = 6" by (auto simp: lower_def dest: arg_cong [where f = length])
  from h(6) have "lower_char (hd w) = CHR ''p''" by (cases w) (auto simp: lower_def)
  then have ns: "\<not> is_space (hd (w @ post))" using lw by (cases w) (auto simp: lower_p_not_space)
  have t1: "takeWhile is_digit s = ds" and d1: "dropWhile is_digit s = ws @ w @ post"
    using h(1,3) nd by (simp_all add: takeWhile_all dropWhile_all)
  have t2: "takeWhile is_space (ws @ w @ post) = ws" and d2: "dropWhile is_space (ws @ w @ post) = w @ post"
    using h(5) ns by (simp_all add: takeWhile_all dropWhile_all)
  show "match_packets s \<noteq> None"
    using h(2,4,6) lw by (simp add: match_packets_def Let_def t1 d1 t2 d2 startswith_ci_def)
qed


lemma digit_not_space: "is_digit c \<Longrightarrow> \<not> is_space c"
  using space_not_digit by blast

lemma match_captured_iff:
  "(match_captured s \<noteq> None) =
     (\<exists>w ws ds post. s = w @ ws @ ds @ post
        \<and> lower w = ''captured:'' \<and> list_all is_space ws
        \<and> ds \<noteq> [] \<and> list_all is_digit ds)"
proof
  assume m: "match_captured s \<noteq> None"
  define r where "r = drop 9 s"
  define ws where "ws = takeWhile is_space r"
  define r2 where "r2 = dropWhile is_space r"
  define ds where "ds = takeWhile is_digit r2"
  from m have a: "lower (take 9 s) = ''captured:''" "ds \<noteq> []"
    by (auto simp: match_captured_def Let_def ds_def r2_def r_def startswith_ci_def
        eval_nat_numeral split: if_splits)
  have "s = take 9 s @ ws @ ds @ dropWhile is_digit r2"
    by (simp add: ds_def r2_def ws_def r_def)
  moreover have "list_all is_digit ds" "list_all is_space ws"
    by (simp_all add: ds_def ws_def list_all_takeWhile)
  ultimately show "\<exists>w ws ds post. s = w @ ws @ ds @ post
        \<and> lower w = ''captured:'' \<and> list_all is_space ws
        \<and> ds \<noteq> [] \<and> list_all is_digit ds"
    using a by blast
next
  assume "\<exists>w ws ds post. s = w @ ws @ ds @ post
        \<and> lower w = ''captured:'' \<and> list_all is_space ws
        \<and> ds \<noteq> [] \<and> list_all is_digit ds"
  then obtain w ws ds post where h: "s = w @ ws @ ds @ post" "lower w = ''captured:''"
     "list_all is_space ws" "ds \<noteq> []" "list_all is_digit ds" by blast
  from h(2) have lw: "length w = 9" by (auto simp: lower_def dest: arg_cong [where f = length])
  from h(4,5) obtain d ds' where ds: "ds = d # ds'" "is_digit d" by (cases ds) auto
  then have ns: "\<not> is_space (hd (ds @ post))" by (simp add: digit_not_space)
  have d2: "dropWhile is_space (ws @ ds @ post) = ds @ post"
    using h(3) ns by (simp add: dropWhile_all)
  have t: "takeWhile is_digit (ds @ post) \<noteq> []" using ds by simp
  show "match_captured s \<noteq> None"
    using h(1,2) lw t by (simp add: match_captured_def Let_def startswith_ci_def d2)
qed

lemma startswith_iff: "startswith s p = (\<exists>post. s = p @ post)"
proof
  assume "startswith s p"
  then have "s = p @ drop (length p) s"
    by (metis append_take_drop_id startswith_def)
  then show "\<exists>post. s = p @ post" ..
next
  assume "\<exists>post. s = p @ post"
  then show "startswith s p" by (auto simp: startswith_def)
qed

lemma contains_iff: "contains s sub = (\<exists>pre post. s = pre @ sub @ post)"
proof (induction s)
  case Nil
  then show ?case by auto
next
  case (Cons c cs)
  show ?case
  proof
    assume "contains (c # cs) sub"
    then consider "startswith (c # cs) sub" | "contains cs sub" by auto
    then show "\<exists>pre post. c # cs = pre @ sub @ post"
    proof cases
      case 1
      then obtain post where "c # cs = [] @ sub @ post" by (auto simp: startswith_iff)
      then show ?thesis by blast
    next
      case 2
      with Cons obtain pre post where "cs = pre @ sub @ post" by blast
      then have "c # cs = (c # pre) @ sub @ post" by simp
      then show ?thesis by blast
    qed
  next
    assume "\<exists>pre post. c # cs = pre @ sub @ post"
    then obtain pre post where h: "c # cs = pre @ sub @ post" by blast
    show "contains (c # cs) sub"
    proof (cases pre)
      case Nil
      with h have "startswith (c # cs) sub" by (auto simp: startswith_iff)
      then show ?thesis by simp
    next
      case (Cons a pre')
      with h have "cs = pre' @ sub @ post" by simp
      then have "contains cs sub" using Cons.IH by blast
      then show ?thesis by simp
    qed
  qed
qed

lemma captured_guard:
  assumes "re_search match_captured data \<noteq> None"
  shows "contains (lower data) ''captured''"
proof -
  from assms have "\<exists>pre suf. data = pre @ suf \<and> match_captured suf \<noteq> None"
    by (simp only: re_search_iff)
  then obtain pre suf where h: "data = pre @ suf" "match_captured suf \<noteq> None"
    by blast
  from h(2) have "\<exists>w ws ds post. suf = w @ ws @ ds @ post
        \<and> lower w = ''captured:'' \<and> list_all is_space ws
        \<and> ds \<noteq> [] \<and> list_all is_digit ds"
    by (simp only: match_captured_iff)
  then obtain w rest where w: "suf = w @ rest" "lower w = ''captured:''"
    by blast
  have "lower data = lower pre @ ''captured'' @ ('':'' @ lower rest)"
    using h(1) w by (simp add: lower_def)
  then show ?thesis unfolding contains_iff by blast
qed

lemma re_search_packets_token: "(re_search match_packets data \<noteq> None) = has_packets_token data"
  unfolding re_search_iff match_packets_iff has_packets_token_def by blast

lemma re_search_captured_token: "(re_search match_captured data \<noteq> None) = has_captured_token data"
  unfolding re_search_iff match_captured_iff has_captured_token_def by blast

lemma py_int_cases:
  "py_int ds = (if int_max_str_digits < length ds then Inl ValueError
               else Inr (int_of_digits ds))"
  by (simp add: py_int_def)

lemma update_sniffer_display_eq:
  "update_sniffer_display s data =
     (case re_search match_packets data of
        Some ds \<Rightarrow>
          if int_max_str_digits < length ds then Inl ValueError
          else Inr (s\<lparr>sniffer_packets := int_of_digits ds\<rparr>)
      | None \<Rightarrow>
         (case re_search match_captured data of
            Some ds \<Rightarrow>
              if int_max_str_digits < length ds then Inl ValueError
              else Inr (s\<lparr>sniffer_packets := int_of_digits ds\<rparr>)
          | None \<Rightarrow> Inr s))"
  using captured_guard [of data]
  by (auto simp: update_sniffer_display_def py_int_cases and_then_def split: option.splits)

lemma search_42_packets: "re_search match_packets ''42 packets'' = Some ''42''"
  by code_simp

lemma search_captured_7:
  "re_search match_packets ''captured: 7'' = None"
  "re_search match_captured ''captured: 7'' = Some ''7''"
  by code_simp+

lemma int_of_digits_examples: "int_of_digits ''42'' = 42" "int_of_digits ''7'' = 7"
  by (simp_all add: int_of_digits_def digit_value_def)

lemma re_search_head: "m s = Some r \<Longrightarrow> re_search m s = Some r"
  by (cases s) auto

lemma match_packets_digits:
  assumes "ds \<noteq> []" "list_all is_digit ds"
  shows "match_packets (ds @ '' packets'') = Some ds"
proof -
  have nd: "\<not> is_digit (hd '' packets'')" by code_simp
  have t: "takeWhile is_digit (ds @ '' packets'') = ds"
    using assms(2) nd by (intro takeWhile_all) simp_all
  have d: "dropWhile is_digit (ds @ '' packets'') = '' packets''"
    using assms(2) nd by (intro dropWhile_all) simp_all
  have w: "takeWhile is_space '' packets'' = '' ''"
    "dropWhile is_space '' packets'' = ''packets''"
    "startswith_ci ''packets'' ''packet''"
    by code_simp+
  show ?thesis
    unfolding match_packets_def Let_def t d w(1,2) using assms(1) w(3) by simp
qed

lemma search_packets_digits:
  "ds \<noteq> [] \<Longrightarrow> list_all is_digit ds \<Longrightarrow>
     re_search match_packets (ds @ '' packets'') = Some ds"
  by (intro re_search_head match_packets_digits)

text \<open>
  C4, as the code has it. \<open>update_sniffer_display\<close> takes the integer of the first
  match of \<open><integer> packet(s)\<close> when the line has one, else of the first match of
  \<open>captured: <integer>\<close> when the line has one; the searches succeed exactly on
  the lines of these shapes, in any letter case. When the digits of that match are
  at most 4300 the packet counter is overwritten with their value; when they are
  more, \<open>int\<close> raises \<open>ValueError\<close> and nothing is written. A line of neither
  shape leaves the state unchanged. The line \<open>42 packets\<close> sets the counter to 42
  and the line \<open>captured: 7\<close> after it sets it to 7.
\<close>

theorem update_sniffer_display_overwrites:
  "update_sniffer_display s data =
     (case re_search match_packets data of
        Some ds \<Rightarrow>
          if int_max_str_digits < length ds then Inl ValueError
          else Inr (s\<lparr>sniffer_packets := int_of_digits ds\<rparr>)
      | None \<Rightarrow>
         (case re_search match_captured data of
            Some ds \<Rightarrow>
              if int_max_str_digits < length ds then Inl ValueError
              else Inr (s\<lparr>sniffer_packets := int_of_digits ds\<rparr>)
          | None \<Rightarrow> Inr s))
   \<and> int_max_str_digits = 4300
   \<and> (re_search match_packets data \<noteq> None) = has_packets_token data
   \<and> (re_search match_captured data \<noteq> None) = has_captured_token data
   \<and> (\<not> has_packets_token data \<and> \<not> has_captured_token data \<longrightarrow>
        update_sniffer_display s data = Inr s)
   \<and> update_sniffer_display s ''42 packets'' = Inr (s\<lparr>sniffer_packets := 42\<rparr>)
   \<and> update_sniffer_display (s\<lparr>sniffer_packets := 42\<rparr>) ''captured: 7''
       = Inr (s\<lparr>sniffer_packets := 7\<rparr>)"
proof (intro conjI impI)
  show "update_sniffer_display s data =
     (case re_search match_packets data of
        Some ds \<Rightarrow>
          if int_max_str_digits < length ds then Inl ValueError
          else Inr (s\<lparr>sniffer_packets := int_of_digits ds\<rparr>)
      | None \<Rightarrow>
         (case re_search match_captured data of
            Some ds \<Rightarrow>
              if int_max_str_digits < length ds then Inl ValueError
              else Inr (s\<lparr>sniffer_packets := int_of_digits ds\<rparr>)
          | None \<Rightarrow> Inr s))"
    by (rule update_sniffer_display_eq)
  show "int_max_str_digits = 4300" by (rule int_max_str_digits_def)
  show "(re_search match_packets data \<noteq> None) = has_packets_token data"
    by (rule re_search_packets_token)
  show "(re_search match_captured data \<noteq> None) = has_captured_token data"
    by (rule re_search_captured_token)
  show "update_sniffer_display s data = Inr s"
    if "\<not> has_packets_token data \<and> \<not> has_captured_token data"
    using that re_search_packets_token [of data] re_search_captured_token [of data]
    by (simp add: update_sniffer_display_eq)
  show "update_sniffer_display s ''42 packets'' = Inr (s\<lparr>sniffer_packets := 42\<rparr>)"
    unfolding update_sniffer_display_eq search_42_packets
    by (simp add: int_of_digits_examples int_max_str_digits_def)
  show "update_sniffer_display (s\<lparr>sniffer_packets := 42\<rparr>) ''captured: 7''
       = Inr (s\<lparr>sniffer_packets := 7\<rparr>)"
    unfolding update_sniffer_display_eq search_captured_7
    by (simp add: int_of_digits_examples int_max_str_digits_def)
qed

theorem update_sniffer_display_overwrites_witness:
  "\<not> has_packets_token ''hello'' \<and> \<not> has_captured_token ''hello''
   \<and> update_sniffer_display idle_session ''hello'' = Inr idle_session
   \<and> update_sniffer_display idle_session ''42 packets''
       = Inr (idle_session\<lparr>sniffer_packets := 42\<rparr>)"
proof -
  note t = update_sniffer_display_overwrites [of idle_session "''hello''"]
  have n1: "re_search match_packets ''hello'' = None" by code_simp
  have n2: "re_search match_captured ''hello'' = None" by code_simp
  from t n1 have p: "\<not> has_packets_token ''hello''" by blast
  from t n2 have c: "\<not> has_captured_token ''hello''" by blast
  from t p c have u: "update_sniffer_display idle_session ''hello'' = Inr idle_session"
    by blast
  from t have e: "update_sniffer_display idle_session ''42 packets''
       = Inr (idle_session\<lparr>sniffer_packets := 42\<rparr>)"
    by blast
  show ?thesis using p c u e by blast
qed

text \<open>
  C4 as stated ("for every input line ... overwrites the packet counter ... when
  the line matches") fails: a line of 4301 digits, a space and the word packets
  matches the first shape, and the method raises \<open>ValueError\<close> without writing the
  counter.
\<close>

theorem update_sniffer_display_int_limit:
  "has_packets_token huge_packets_line
   \<and> update_sniffer_display idle_session huge_packets_line = Inl ValueError"
proof -
  have d: "replicate 4301 CHR ''9'' \<noteq> []" "list_all is_digit (replicate 4301 CHR ''9'')"
    by (simp_all add: list_all_iff is_digit_def)
  from search_packets_digits [OF d]
  have r: "re_search match_packets huge_packets_line = Some (replicate 4301 CHR ''9'')"
    by (simp add: huge_packets_line_def)
  then have "re_search match_packets huge_packets_line \<noteq> None" by simp
  then have h: "has_packets_token huge_packets_line"
    by (simp only: re_search_packets_token)
  have "update_sniffer_display idle_session huge_packets_line = Inl ValueError"
    unfolding update_sniffer_display_eq r by (simp add: int_max_str_digits_def)
  with h show ?thesis by blast
qed

section \<open>The portal events\<close>

lemma update_portal_display_table:
  "update_portal_display s data =
     (case classify_portal data of
        None \<Rightarrow> Inr (s, [])
      | Some k \<Rightarrow> portal_effect k data s)"
  by (simp add: update_portal_display_def classify_portal_def portal_predicates_def Let_def
      py_int_cases and_then_def split: option.splits)

lemma classify_password_not_error:
  "contains data ''Password:'' \<Longrightarrow> classify_portal data \<noteq> Some ErrorFailure"
  by (simp add: classify_portal_def portal_predicates_def)

lemma classify_password:
  "contains data ''Password:'' \<Longrightarrow> \<not> contains data ''Client connected'' \<Longrightarrow>
   \<not> contains data ''Client count'' \<Longrightarrow> classify_portal data = Some PasswordSubmission"
  by (simp add: classify_portal_def portal_predicates_def)

lemma password_effect:
  "\<exists>s' out. portal_effect PasswordSubmission data s = Inr (s', out)
     \<and> submitted_forms s' = submitted_forms s + 1
     \<and> client_count s' = client_count s
     \<and> last_submitted_data s' =
         (case re_search match_password data of
            Some password \<Rightarrow> ''Password: '' @ password
          | None \<Rightarrow> last_submitted_data s)
     \<and> out \<noteq> [(RED, ''[!] '' @ data)]"
  by (cases "re_search match_password data") simp_all

lemma password_error_line_facts:
  "contains password_error_line ''Password:''"
  "contains (lower password_error_line) ''error''"
  "\<not> contains password_error_line ''Client connected''"
  "\<not> contains password_error_line ''Client count''"
  "re_search match_password password_error_line = Some ''hunter2 (login error)''"
  unfolding password_error_line_def by code_simp+

text \<open>
  C7. \<open>update_portal_display\<close> is the ordered table: the predicates are tried in
  the order client connected, client count, password, form, saved, error, success;
  the first that holds gives the kind of the event and the effect of that kind alone
  is applied, and a line on which none holds changes nothing. A line that contains
  \<open>Password:\<close> is never handled as an error; unless one of the two client
  predicates, which come first, also holds, it is a password submission: the method
  returns without raising, the counter of submitted forms goes up by one, the client
  count stays, the text that the pattern captures after the marker is recorded, and
  no error line is printed.
\<close>

theorem update_portal_display_first_match:
  "map fst portal_predicates =
     [ClientConnected, ClientCountUpdate, PasswordSubmission, FormSubmission,
      SavedToStorage, ErrorFailure, Success]
   \<and> update_portal_display s data =
       (case classify_portal data of
          None \<Rightarrow> Inr (s, [])
        | Some k \<Rightarrow> portal_effect k data s)
   \<and> (contains data ''Password:'' \<longrightarrow> classify_portal data \<noteq> Some ErrorFailure)
   \<and> (contains data ''Password:'' \<and> \<not> contains data ''Client connected''
        \<and> \<not> contains data ''Client count'' \<longrightarrow>
         classify_portal data = Some PasswordSubmission
       \<and> (\<exists>s' out. update_portal_display s data = Inr (s', out)
             \<and> submitted_forms s' = submitted_forms s + 1
             \<and> client_count s' = client_count s
             \<and> last_submitted_data s' =
                 (case re_search match_password data of
                    Some password \<Rightarrow> ''Password: '' @ password
                  | None \<Rightarrow> last_submitted_data s)
             \<and> out \<noteq> [(RED, ''[!] '' @ data)]))"
proof (intro conjI impI)
  show "map fst portal_predicates =
     [ClientConnected, ClientCountUpdate, PasswordSubmission, FormSubmission,
      SavedToStorage, ErrorFailure, Success]"
    by (simp add: portal_predicates_def)
  show "update_portal_display s data =
       (case classify_portal data of
          None \<Rightarrow> Inr (s, [])
        | Some k \<Rightarrow> portal_effect k data s)"
    by (rule update_portal_display_table)
  show "classify_portal data \<noteq> Some ErrorFailure" if "contains data ''Password:''"
    using that by (rule classify_password_not_error)
next
  assume "contains data ''Password:'' \<and> \<not> contains data ''Client connected''
        \<and> \<not> contains data ''Client count''"
  then have c: "classify_portal data = Some PasswordSubmission"
    by (simp add: classify_password)
  then have u: "update_portal_display s data = portal_effect PasswordSubmission data s"
    by (simp add: update_portal_display_table)
  show "classify_portal data = Some PasswordSubmission" by (rule c)
  show "\<exists>s' out. update_portal_display s data = Inr (s', out)
             \<and> submitted_forms s' = submitted_forms s + 1
             \<and> client_count s' = client_count s
             \<and> last_submitted_data s' =
                 (case re_search match_password data of
                    Some password \<Rightarrow> ''Password: '' @ password
                  | None \<Rightarrow> last_submitted_data s)
             \<and> out \<noteq> [(RED, ''[!] '' @ data)]"
    unfolding u by (rule password_effect)
qed

theorem update_portal_display_first_match_witness:
  "contains password_error_line ''Password:''
   \<and> contains (lower password_error_line) ''error''
   \<and> classify_portal password_error_line = Some PasswordSubmission
   \<and> (\<exists>s' out. update_portal_display idle_session password_error_line = Inr (s', out)
         \<and> submitted_forms s' = 1
         \<and> last_submitted_data s' = ''Password: hunter2 (login error)'')"
proof -
  note t = update_portal_display_first_match [of idle_session password_error_line]
  note f = password_error_line_facts
  from t f have c: "classify_portal password_error_line = Some PasswordSubmission"
    by blast
  from t f(1,3,4) obtain s' out where
    r: "update_portal_display idle_session password_error_line = Inr (s', out)"
      "submitted_forms s' = submitted_forms idle_session + 1"
      "last_submitted_data s' =
         (case re_search match_password password_error_line of
            Some password \<Rightarrow> ''Password: '' @ password
          | None \<Rightarrow> last_submitted_data idle_session)"
    by blast
  from r(2) have n: "submitted_forms s' = 1" by (simp add: idle_session_def)
  from r(3) have l: "last_submitted_data s' = ''Password: hunter2 (login error)''"
    by (simp add: f(5))
  show ?thesis using f(1,2) c r(1) n l by blast
qed

section \<open>Selecting networks\<close>

lemma list_ex_dropWhile:
  "list_ex P xs \<Longrightarrow> (\<And>c. P c \<Longrightarrow> \<not> Q c) \<Longrightarrow> list_ex P (dropWhile Q xs)"
  by (induction xs) auto

lemma list_ex_strip: "list_ex other_char sel \<Longrightarrow> list_ex other_char (strip sel)"
proof -
  assume a: "list_ex other_char sel"
  have q: "\<And>c. other_char c \<Longrightarrow> \<not> is_space c" by (simp add: other_char_def)
  from a q have "list_ex other_char (dropWhile is_space sel)" by (rule list_ex_dropWhile)
  then have "list_ex other_char (rev (dropWhile is_space sel))"
    by (simp add: list_ex_iff)
  then have "list_ex other_char (dropWhile is_space (rev (dropWhile is_space sel)))"
    using q by (rule list_ex_dropWhile)
  then show ?thesis by (simp add: strip_def rstrip_def lstrip_def list_ex_iff)
qed

lemma other_char_no_match: "list_ex other_char sel \<Longrightarrow> \<not> match_digits_spaces sel"
  by (auto simp: match_digits_spaces_def list_ex_iff list_all_iff other_char_def)

lemma select_rejects:
  assumes "list_ex other_char sel" "lower (strip sel) \<noteq> ''all''"
  shows "select_networks_menu s (Some sel) = s"
proof -
  from assms(1) have e: "list_ex other_char (strip sel)" by (rule list_ex_strip)
  then have "\<not> match_digits_spaces (strip sel)" by (rule other_char_no_match)
  with assms(2) show ?thesis by (simp add: select_networks_menu_def Let_def)
qed

lemma all_facts:
  "strip ''all'' = ''all''" "lower ''all'' = ''all''"
  "strip ''ALL'' = ''ALL''" "lower ''ALL'' = ''all''"
  "join '' '' (map (\<lambda>i. str_nat (i + 1)) [0..<5]) = ''1 2 3 4 5''"
  "match_digits_spaces ''1 2 3 4 5''"
  by code_simp+

lemma five_networks_facts:
  "network_count (network_mgr five_networks_session) = 5"
  "length (networks (network_mgr five_networks_session)) = 5"
  "selected_networks (network_mgr five_networks_session) = []"
  "connected (serial_mgr five_networks_session)"
  "written (serial_mgr five_networks_session) = []"
  unfolding five_networks_session_def five_network_lines_def idle_session_def
    init_network_manager_def
  by code_simp+

lemma select_all_5:
  assumes "network_count (network_mgr s) = 5" "lower (strip sel) = ''all''"
  shows "select_networks_menu s (Some sel) =
     send (s\<lparr>network_mgr := set_selected_networks (network_mgr s) ''1 2 3 4 5''\<rparr>)
          ''select_networks 1 2 3 4 5''"
proof -
  from assms(2) have ne: "strip sel \<noteq> []" by (auto simp: lower_def)
  show ?thesis
    unfolding select_networks_menu_def Let_def assms(1) using ne assms(2)
    by (simp only: all_facts(5)) (simp add: all_facts(6))
qed

text \<open>
  C8, as the code has it. With 5 known networks the selection text \<open>all\<close> expands
  to \<open>1 2 3 4 5\<close>, which is stored and sent in a \<open>select_networks\<close> command.
  A selection text that contains a character outside the digits and the white space,
  and that is not the keyword \<open>all\<close> in any letter case (after trimming), is
  rejected: the state is returned as it is, so the stored selection is unchanged and
  no command is written to the port.
\<close>

theorem select_networks_menu_all_or_reject:
  "(network_count (network_mgr s) = 5 \<longrightarrow>
      select_networks_menu s (Some ''all'') =
        send (s\<lparr>network_mgr := set_selected_networks (network_mgr s) ''1 2 3 4 5''\<rparr>)
             ''select_networks 1 2 3 4 5'')
   \<and> (list_ex other_char sel \<and> lower (strip sel) \<noteq> ''all'' \<longrightarrow>
        select_networks_menu s (Some sel) = s)"
  using select_all_5 [of s "''all''"] select_rejects [of sel s]
  by (simp add: all_facts)

text \<open>
  C8 as stated ("every selection text containing a letter is rejected") fails: the
  text \<open>ALL\<close> consists of letters, and with 5 known networks it is accepted, stored
  as \<open>1 2 3 4 5\<close> and sent to the device, because the keyword is compared after
  \<open>lower()\<close>.
\<close>

theorem select_networks_menu_upper_case_all:
  "list_ex other_char ''ALL''
   \<and> select_networks_menu five_networks_session (Some ''ALL'') \<noteq> five_networks_session
   \<and> selected_networks (network_mgr (select_networks_menu five_networks_session (Some ''ALL'')))
       = ''1 2 3 4 5''
   \<and> written (serial_mgr (select_networks_menu five_networks_session (Some ''ALL'')))
       = [''select_networks 1 2 3 4 5'' @ [CHR 0x0D, CHR 0x0A]]"
proof -
  have n: "network_count (network_mgr five_networks_session) = 5"
    by (rule five_networks_facts)
  have e: "select_networks_menu five_networks_session (Some ''ALL'') =
     send (five_networks_session\<lparr>network_mgr :=
             set_selected_networks (network_mgr five_networks_session) ''1 2 3 4 5''\<rparr>)
          ''select_networks 1 2 3 4 5''"
    using n by (rule select_all_5) (simp add: all_facts)
  have o: "list_ex other_char ''ALL''" by code_simp
  have w: "written (serial_mgr (select_networks_menu five_networks_session (Some ''ALL'')))
       = [''select_networks 1 2 3 4 5'' @ [CHR 0x0D, CHR 0x0A]]"
    unfolding e
    by (simp add: send_def send_command_def five_networks_facts)
  have sn: "selected_networks (network_mgr (select_networks_menu five_networks_session (Some ''ALL'')))
       = ''1 2 3 4 5''"
    unfolding e by (simp add: send_def set_selected_networks_def)
  have "selected_networks (network_mgr five_networks_session) = []"
    by (rule five_networks_facts)
  with sn have d: "select_networks_menu five_networks_session (Some ''ALL'') \<noteq> five_networks_session"
    by auto
  show ?thesis using o d sn w by blast
qed

theorem select_networks_menu_all_or_reject_witness:
  "select_networks_menu five_networks_session (Some ''all'') =
        send (five_networks_session\<lparr>network_mgr :=
                set_selected_networks (network_mgr five_networks_session) ''1 2 3 4 5''\<rparr>)
             ''select_networks 1 2 3 4 5''
   \<and> list_ex other_char ''1 x 3''
   \<and> select_networks_menu five_networks_session (Some ''1 x 3'') = five_networks_session"
proof -
  note t = select_networks_menu_all_or_reject [of five_networks_session "''1 x 3''"]
  have n: "network_count (network_mgr five_networks_session) = 5"
    by (rule five_networks_facts)
  have o: "list_ex other_char ''1 x 3''" by code_simp
  have l: "lower (strip ''1 x 3'') \<noteq> ''all''" by code_simp
  show ?thesis using t n o l by blast
qed

section \<open>The probe rows\<close>

lemma py_split_length_ge1: "1 \<le> length (py_split sep cur s)"
proof (induction sep cur s rule: py_split.induct)
  case (1 sep cur s)
  show ?case
    using "1.IH" by (subst py_split.simps) auto
qed

lemma py_split_length_ge2:
  "sep \<noteq> [] \<Longrightarrow> contains s sep \<Longrightarrow> 2 \<le> length (py_split sep cur s)"
proof (induction sep cur s rule: py_split.induct)
  case (1 sep cur s)
  show ?case
  proof (cases s)
    case Nil
    with "1.prems" show ?thesis by simp
  next
    case (Cons c cs)
    show ?thesis
    proof (cases "startswith s sep")
      case True
      then show ?thesis
        using "1.prems"(1) Cons py_split_length_ge1 [of sep "[]" "drop (length sep) s"]
        by (subst py_split.simps) simp
    next
      case False
      with "1.prems" Cons have "contains (tl s) sep" by simp
      with "1.IH"(2) "1.prems"(1) False Cons
      have "2 \<le> length (py_split sep (cur @ [hd s]) (tl s))" by simp
      with False Cons show ?thesis by (subst py_split.simps) simp
    qed
  qed
qed


lemma py_index_in_range: "i < length xs \<Longrightarrow> py_index xs i = Inr (xs ! i)"
  by (simp add: py_index_def)

lemma split_index_0: "py_index (split s sep) 0 = Inr (split s sep ! 0)"
  using py_split_length_ge1 [of sep "[]" s]
  by (intro py_index_in_range) (cases "py_split sep [] s"; simp add: split_def)

lemma split_index_1:
  "sep \<noteq> [] \<Longrightarrow> contains s sep \<Longrightarrow> py_index (split s sep) 1 = Inr (split s sep ! 1)"
  using py_split_length_ge2 [of sep s "[]"]
  by (intro py_index_in_range) (simp add: split_def)

lemma probe_row_ssid_total: "\<exists>v. probe_row_ssid line = Inr v"
proof -
  consider (a) "contains line ''SSID:''"
    | (b) "\<not> contains line ''SSID:''" "contains line ''->''"
    | (c) "\<not> contains line ''SSID:''" "\<not> contains line ''->''" "contains line ''looking for''"
    | (d) "\<not> contains line ''SSID:''" "\<not> contains line ''->''"
          "\<not> contains line ''looking for''"
    by blast
  then show ?thesis
  proof cases
    case a
    have "py_index (split line ''SSID:'') 1 = Inr (split line ''SSID:'' ! 1)"
      by (rule split_index_1) (simp_all only: a, simp)
    with a show ?thesis
      by (simp only: probe_row_ssid_def and_then_def split_index_0 if_True sum.case) blast
  next
    case b
    have "py_index (split line ''->'') 1 = Inr (split line ''->'' ! 1)"
      by (rule split_index_1) (simp_all only: b, simp)
    with b show ?thesis
      by (simp only: probe_row_ssid_def and_then_def split_index_0 if_True if_False sum.case)
         blast
  next
    case c
    have "py_index (split line ''looking for'') 1 = Inr (split line ''looking for'' ! 1)"
      by (rule split_index_1) (simp_all only: c, simp)
    with c show ?thesis
      by (simp only: probe_row_ssid_def and_then_def if_True if_False sum.case) blast
  next
    case d
    then show ?thesis
      by (simp only: probe_row_ssid_def if_False) blast
  qed
qed

lemma probe_row_total: "\<exists>p. probe_row line = Inr p"
proof -
  obtain v where "probe_row_ssid line = Inr v" using probe_row_ssid_total by blast
  then show ?thesis by (simp add: probe_row_def and_then_def Let_def)
qed


text \<open>
  C3. On the line \<open>Client: AA:BB:CC:DD:EE:FF, SSID: Home, RSSI: -60\<close> the row has
  the MAC and the SSID of the line, but its RSSI is the placeholder \<open>N/A\<close>, not
  \<open>-60dBm\<close>: the pattern asks for the letters \<open>dB\<close> after the digits, and the
  line has none. (No row raises: \<open>probe_row_total\<close>.)
\<close>

theorem probe_row_example:
  "is_probe_row probe_example_line \<and>
   probe_row probe_example_line =
     Inr \<lparr>client_mac = ''AA:BB:CC:DD:EE:FF'', probe_ssid = ''Home'', probe_rssi = ''N/A'',
          timestamp = []\<rparr>"
  unfolding probe_example_line_def by code_simp

section \<open>What the line classifiers can raise\<close>

lemma update_sniffer_display_raises:
  "(update_sniffer_display s line = Inl e) =
     (e = ValueError \<and>
      (case re_search match_packets line of
         Some ds \<Rightarrow> int_max_str_digits < length ds
       | None \<Rightarrow>
          (case re_search match_captured line of
             Some ds \<Rightarrow> int_max_str_digits < length ds
           | None \<Rightarrow> False)))"
  unfolding update_sniffer_display_eq by (auto split: option.splits)

lemma update_portal_display_raises:
  "(update_portal_display s line = Inl e) =
     (e = ValueError \<and> \<not> contains line ''Client connected''
      \<and> contains line ''Client count''
      \<and> (case re_search match_client_count line of
            Some ds \<Rightarrow> int_max_str_digits < length ds
          | None \<Rightarrow> False))"
  by (auto simp: update_portal_display_def py_int_cases and_then_def Let_def
      split: option.splits)

lemma update_evil_twin_display_total: "\<exists>r. update_evil_twin_display s line = Inr r"
  by (simp add: update_evil_twin_display_def)

lemma strip_unchanged:
  assumes "s \<noteq> []" "\<not> is_space (hd s)" "\<not> is_space (last s)"
  shows "strip s = s"
proof -
  from assms(1,2) have a: "dropWhile is_space s = s" by (cases s) simp_all
  from assms(1,3) have "dropWhile is_space (rev s) = rev s"
    by (cases "rev s") (simp_all add: hd_rev)
  with a show ?thesis by (simp add: strip_def lstrip_def rstrip_def)
qed

lemma search_googol_packets:
  "re_search match_packets googol_packets_line = Some (CHR ''1'' # replicate 4300 CHR ''0'')"
proof -
  have "CHR ''1'' # replicate 4300 CHR ''0'' \<noteq> []"
    "list_all is_digit (CHR ''1'' # replicate 4300 CHR ''0'')"
    by (simp_all add: list_all_iff is_digit_def)
  from search_packets_digits [OF this] show ?thesis
    by (simp only: googol_packets_line_def)
qed

lemma strip_googol_packets: "strip googol_packets_line = googol_packets_line"
proof (rule strip_unchanged)
  show "googol_packets_line \<noteq> []" by (simp add: googol_packets_line_def)
  show "\<not> is_space (hd googol_packets_line)"
    by (simp add: googol_packets_line_def is_space_def)
  show "\<not> is_space (last googol_packets_line)"
    by (simp add: googol_packets_line_def is_space_def)
qed

text \<open>
  C9, as the code has it. On every input line the network-line classifier finishes
  without raising (no subscript of its guarded block is out of range) and a line that
  does not begin with a quote or has fewer than 8 fields simply yields no record; the
  probe rows and the evil-twin classifier never raise either. The packet-count
  classifier and the portal classifier raise nothing but \<open>ValueError\<close>, and this
  exactly when the integer they are about to convert has more than 4300 digits (for
  the portal classifier, on the client-count branch). The listener loops call these
  two inside \<open>try\<close> with \<open>except Exception: pass\<close>: when the classifier raises,
  the pass of the loop leaves the state as it was, so nothing is raised past the
  listener.
\<close>

theorem line_classifiers_raise_only_int_limit:
  "(\<exists>r. parse_network_try line = Inr r)
   \<and> (\<not> startswith line [dquote] \<or> length (split line csv_delimiter) < 8 \<longrightarrow>
        parse_network_line line = None)
   \<and> (\<exists>p. probe_row line = Inr p)
   \<and> (\<exists>r. update_evil_twin_display s line = Inr r)
   \<and> (update_sniffer_display s line = Inl e) =
       (e = ValueError \<and>
        (case re_search match_packets line of
           Some ds \<Rightarrow> int_max_str_digits < length ds
         | None \<Rightarrow>
            (case re_search match_captured line of
               Some ds \<Rightarrow> int_max_str_digits < length ds
             | None \<Rightarrow> False)))
   \<and> (update_portal_display s line = Inl e) =
       (e = ValueError \<and> \<not> contains line ''Client connected''
        \<and> contains line ''Client count''
        \<and> (case re_search match_client_count line of
              Some ds \<Rightarrow> int_max_str_digits < length ds
            | None \<Rightarrow> False))
   \<and> int_max_str_digits = 4300
   \<and> (update_sniffer_display s (strip raw) = Inl e \<longrightarrow> read_sniffer_data_line s raw = s)
   \<and> (update_portal_display s (strip raw) = Inl e \<longrightarrow>
        read_portal_data_line s raw = (s, []))"
proof (intro conjI impI)
  show "\<exists>r. parse_network_try line = Inr r" by (simp add: parse_network_try_Inr)
  show "parse_network_line line = None"
    if "\<not> startswith line [dquote] \<or> length (split line csv_delimiter) < 8"
    using that
    by (auto simp: parse_network_line_def parse_network_try_Inr length_parse_network_parts)
  show "\<exists>p. probe_row line = Inr p" by (rule probe_row_total)
  show "\<exists>r. update_evil_twin_display s line = Inr r"
    by (rule update_evil_twin_display_total)
  show "(update_sniffer_display s line = Inl e) =
       (e = ValueError \<and>
        (case re_search match_packets line of
           Some ds \<Rightarrow> int_max_str_digits < length ds
         | None \<Rightarrow>
            (case re_search match_captured line of
               Some ds \<Rightarrow> int_max_str_digits < length ds
             | None \<Rightarrow> False)))"
    by (rule update_sniffer_display_raises)
  show "(update_portal_display s line = Inl e) =
       (e = ValueError \<and> \<not> contains line ''Client connected''
        \<and> contains line ''Client count''
        \<and> (case re_search match_client_count line of
              Some ds \<Rightarrow> int_max_str_digits < length ds
            | None \<Rightarrow> False))"
    by (rule update_portal_display_raises)
  show "int_max_str_digits = 4300" by (rule int_max_str_digits_def)
  show "read_sniffer_data_line s raw = s" if "update_sniffer_display s (strip raw) = Inl e"
    using that by (simp add: read_sniffer_data_line_def Let_def)
  show "read_portal_data_line s raw = (s, [])"
    if "update_portal_display s (strip raw) = Inl e"
    using that by (simp add: read_portal_data_line_def Let_def)
qed

text \<open>
  C9 as stated ("every line classifier is total") fails: on the line made of the
  number \<open>10 ^ 4300\<close>, a space and the word packets, the packet-count classifier
  raises \<open>ValueError\<close>.
\<close>

theorem update_sniffer_display_raises_on_googol:
  "update_sniffer_display idle_session googol_packets_line = Inl ValueError"
  unfolding update_sniffer_display_eq search_googol_packets
  by (simp add: int_max_str_digits_def)

lemma contains_set: "contains s sub \<Longrightarrow> set sub \<subseteq> set s"
  by (auto simp: contains_iff)

lemma huge_client_count_line_facts:
  "\<not> contains huge_client_count_line ''Client connected''"
  "contains huge_client_count_line ''Client count''"
  "re_search match_client_count huge_client_count_line
     = Some (CHR ''1'' # replicate 4300 CHR ''0'')"
  "strip huge_client_count_line = huge_client_count_line"
proof -
  show "\<not> contains huge_client_count_line ''Client connected''"
  proof
    assume "contains huge_client_count_line ''Client connected''"
    then have "set ''Client connected'' \<subseteq> set huge_client_count_line"
      by (rule contains_set)
    then have "CHR ''d'' \<in> set huge_client_count_line" by simp
    then show False by (simp add: huge_client_count_line_def)
  qed
  have "huge_client_count_line =
      [] @ ''Client count'' @ ('' = '' @ CHR ''1'' # replicate 4300 CHR ''0'')"
    by (simp add: huge_client_count_line_def)
  then show "contains huge_client_count_line ''Client count''"
    unfolding contains_iff by blast
  have d: "list_all is_digit (CHR ''1'' # replicate 4300 CHR ''0'')"
    by (simp add: list_all_iff is_digit_def)
  then have t: "takeWhile is_digit (CHR ''1'' # replicate 4300 CHR ''0'')
      = CHR ''1'' # replicate 4300 CHR ''0''"
    by (simp add: takeWhile_eq_all_conv list_all_iff)
  have "match_client_count huge_client_count_line
     = Some (CHR ''1'' # replicate 4300 CHR ''0'')"
    unfolding match_client_count_def huge_client_count_line_def
    using t by (simp add: startswith_def)
  then show "re_search match_client_count huge_client_count_line
     = Some (CHR ''1'' # replicate 4300 CHR ''0'')"
    by (rule re_search_head)
  show "strip huge_client_count_line = huge_client_count_line"
  proof (rule strip_unchanged)
    show "huge_client_count_line \<noteq> []" by (simp add: huge_client_count_line_def)
    show "\<not> is_space (hd huge_client_count_line)"
      by (simp add: huge_client_count_line_def is_space_def)
    show "\<not> is_space (last huge_client_count_line)"
      by (simp add: huge_client_count_line_def is_space_def)
  qed
qed

theorem line_classifiers_raise_only_int_limit_witness:
  "\<not> startswith ''hello'' [dquote]
   \<and> parse_network_line ''hello'' = None
   \<and> update_sniffer_display idle_session (strip googol_packets_line) = Inl ValueError
   \<and> read_sniffer_data_line idle_session googol_packets_line = idle_session
   \<and> update_portal_display idle_session (strip huge_client_count_line) = Inl ValueError
   \<and> read_portal_data_line idle_session huge_client_count_line = (idle_session, [])"
proof -
  note t1 = line_classifiers_raise_only_int_limit
              [of "''hello''" idle_session ValueError googol_packets_line]
  note t2 = line_classifiers_raise_only_int_limit
              [of googol_packets_line idle_session ValueError huge_client_count_line]
  note t3 = line_classifiers_raise_only_int_limit
              [of huge_client_count_line idle_session ValueError huge_client_count_line]
  have q: "\<not> startswith ''hello'' [dquote]" by code_simp
  with t1 have n: "parse_network_line ''hello'' = None" by blast
  have g: "int_max_str_digits < length (CHR ''1'' # replicate 4300 CHR ''0'')"
    by (simp add: int_max_str_digits_def)
  from t2 have "(update_sniffer_display idle_session googol_packets_line = Inl ValueError) =
       (ValueError = ValueError \<and>
        (case re_search match_packets googol_packets_line of
           Some ds \<Rightarrow> int_max_str_digits < length ds
         | None \<Rightarrow>
            (case re_search match_captured googol_packets_line of
               Some ds \<Rightarrow> int_max_str_digits < length ds
             | None \<Rightarrow> False)))"
    by blast
  with g have "update_sniffer_display idle_session googol_packets_line = Inl ValueError"
    by (simp add: search_googol_packets)
  then have a: "update_sniffer_display idle_session (strip googol_packets_line) = Inl ValueError"
    by (simp add: strip_googol_packets)
  with t1 have b: "read_sniffer_data_line idle_session googol_packets_line = idle_session"
    by blast
  note f = huge_client_count_line_facts
  from t3 have "(update_portal_display idle_session huge_client_count_line = Inl ValueError) =
       (ValueError = ValueError \<and> \<not> contains huge_client_count_line ''Client connected''
        \<and> contains huge_client_count_line ''Client count''
        \<and> (case re_search match_client_count huge_client_count_line of
              Some ds \<Rightarrow> int_max_str_digits < length ds
            | None \<Rightarrow> False))"
    by blast
  with g f(1,2) have "update_portal_display idle_session huge_client_count_line = Inl ValueError"
    by (simp add: f(3))
  then have c: "update_portal_display idle_session (strip huge_client_count_line) = Inl ValueError"
    by (simp add: f(4))
  with t3 have d: "read_portal_data_line idle_session huge_client_count_line = (idle_session, [])"
    by blast
  show ?thesis using q n a b c d by blast
qed

section \<open>Collecting a response\<close>

lemma read_loop_exact:
  "read_loop start timeout now fd lines = (ls, now', fd') \<Longrightarrow>
     ls = lines @ lines_of (window_prefix now (start + timeout) fd)
     \<and> fd' = drop (length (window_prefix now (start + timeout) fd)) fd
     \<and> \<not> now' - start < timeout"
proof (induction start timeout now fd lines rule: read_loop.induct)
  case (1 start timeout now fd lines)
  show ?case
  proof (cases "now - start < timeout")
    case False
    with "1.prems" have "ls = lines" "now' = now" "fd' = fd" by (simp_all add: read_loop.simps)
    moreover from False have "window_prefix now (start + timeout) fd = []"
      by (cases fd) simp_all
    ultimately show ?thesis using False by simp
  next
    case True
    then have w: "now < start + timeout" by simp
    show ?thesis
    proof (cases fd)
      case Nil
      with True "1.prems" have "read_loop start timeout (now + 100) [] lines = (ls, now', fd')"
        by (simp add: read_loop.simps [of start timeout now])
      from "1.IH"(1) [OF True Nil this] Nil show ?thesis by simp
    next
      case (Cons p rest)
      show ?thesis
      proof (cases p)
        case NoData
        with True Cons "1.prems"
        have "read_loop start timeout (now + 100) rest lines = (ls, now', fd')"
          by (simp add: read_loop.simps [of start timeout now])
        from "1.IH"(2) [OF True Cons NoData this] w Cons NoData show ?thesis by simp
      next
        case (Line raw dt)
        with True Cons "1.prems" have "read_loop start timeout (now + int dt) rest
             (if strip raw \<noteq> [] then lines @ [strip raw] else lines) = (ls, now', fd')"
          by (simp add: read_loop.simps [of start timeout now] Let_def)
        from "1.IH"(3) [OF True Cons Line refl this] w Cons Line show ?thesis by simp
      next
        case (ReadError dt)
        with True Cons "1.prems"
        have "read_loop start timeout (now + int dt) rest lines = (ls, now', fd')"
          by (simp add: read_loop.simps [of start timeout now])
        from "1.IH"(4) [OF True Cons ReadError this] w Cons ReadError show ?thesis by simp
      qed
    qed
  qed
qed

lemma within_window_prefix: "within_window now deadline (window_prefix now deadline fd)"
  by (induction fd arbitrary: now) simp_all

lemma window_prefix_all:
  "within_window now deadline fd \<Longrightarrow> window_prefix now deadline fd = fd"
  by (induction fd arbitrary: now) simp_all

lemma window_prefix_append:
  "\<exists>rest. fd = window_prefix now deadline fd @ rest
     \<and> (rest = [] \<or> \<not> within_window now deadline (window_prefix now deadline fd @ [hd rest]))"
proof (induction fd arbitrary: now)
  case Nil
  then show ?case by simp
next
  case (Cons p ps)
  show ?case
  proof (cases "now < deadline")
    case True
    from Cons [of "now + duration p"] obtain rest where
      "ps = window_prefix (now + duration p) deadline ps @ rest"
      "rest = [] \<or> \<not> within_window (now + duration p) deadline
         (window_prefix (now + duration p) deadline ps @ [hd rest])"
      by blast
    with True have "p # ps = window_prefix now deadline (p # ps) @ rest
      \<and> (rest = [] \<or> \<not> within_window now deadline (window_prefix now deadline (p # ps) @ [hd rest]))"
      by simp
    then show ?thesis by blast
  next
    case False
    then have "p # ps = window_prefix now deadline (p # ps) @ (p # ps)
      \<and> \<not> within_window now deadline (window_prefix now deadline (p # ps) @ [hd (p # ps)])"
      by simp
    then show ?thesis by blast
  qed
qed

lemma read_response_exact:
  assumes "connected sm"
  shows "fst (read_response sm timeout w) =
           lines_of (window_prefix (clock w) (clock w + timeout) (feed w))"
    and "feed (snd (read_response sm timeout w)) =
           drop (length (window_prefix (clock w) (clock w + timeout) (feed w))) (feed w)"
    and "timeout \<le> clock (snd (read_response sm timeout w)) - clock w"
proof -
  obtain ls now' fd' where r: "read_loop (clock w) timeout (clock w) (feed w) [] = (ls, now', fd')"
    by (cases "read_loop (clock w) timeout (clock w) (feed w) []") auto
  with assms have e: "read_response sm timeout w = (ls, \<lparr>clock = now', feed = fd'\<rparr>)"
    by (simp add: read_response_def)
  note x = read_loop_exact [OF r]
  from x show "fst (read_response sm timeout w) =
           lines_of (window_prefix (clock w) (clock w + timeout) (feed w))"
    unfolding e by simp
  from x show "feed (snd (read_response sm timeout w)) =
           drop (length (window_prefix (clock w) (clock w + timeout) (feed w))) (feed w)"
    unfolding e by simp
  from x show "timeout \<le> clock (snd (read_response sm timeout w)) - clock w"
    unfolding e by simp
qed

text \<open>
  C2, as the code has it. Without a connection \<open>read_response\<close> returns the empty
  list at once. With one, it returns exactly the non-empty (trimmed) lines of the
  observations that arrive within the window, in their order: the window is the
  longest run of observations from the head of the feed that each start before the
  deadline, and what follows it is left unread. The empty list is an ordinary result.
  When all the lines of the source fall within the window, the result is exactly
  those lines. In every case the method returns only when the deadline has passed:
  the clock has advanced by at least the timeout, however early the lines came.
\<close>

theorem read_response_collects:
  "(\<not> connected sm \<longrightarrow> read_response sm timeout w = ([], w))
   \<and> (connected sm \<longrightarrow>
        fst (read_response sm timeout w) =
          lines_of (window_prefix (clock w) (clock w + timeout) (feed w))
      \<and> feed (snd (read_response sm timeout w)) =
          drop (length (window_prefix (clock w) (clock w + timeout) (feed w))) (feed w)
      \<and> timeout \<le> clock (snd (read_response sm timeout w)) - clock w
      \<and> (within_window (clock w) (clock w + timeout) (feed w) \<longrightarrow>
            fst (read_response sm timeout w) = lines_of (feed w)
          \<and> feed (snd (read_response sm timeout w)) = []))
   \<and> within_window (clock w) (clock w + timeout)
        (window_prefix (clock w) (clock w + timeout) (feed w))
   \<and> (\<exists>rest. feed w = window_prefix (clock w) (clock w + timeout) (feed w) @ rest
        \<and> (rest = [] \<or> \<not> within_window (clock w) (clock w + timeout)
               (window_prefix (clock w) (clock w + timeout) (feed w) @ [hd rest])))"
proof (intro conjI impI)
  show "read_response sm timeout w = ([], w)" if "\<not> connected sm"
    using that by (simp add: read_response_def)
  show "within_window (clock w) (clock w + timeout)
        (window_prefix (clock w) (clock w + timeout) (feed w))"
    by (rule within_window_prefix)
  show "\<exists>rest. feed w = window_prefix (clock w) (clock w + timeout) (feed w) @ rest
        \<and> (rest = [] \<or> \<not> within_window (clock w) (clock w + timeout)
               (window_prefix (clock w) (clock w + timeout) (feed w) @ [hd rest]))"
    by (rule window_prefix_append)
next
  assume c: "connected sm"
  show "fst (read_response sm timeout w) =
          lines_of (window_prefix (clock w) (clock w + timeout) (feed w))"
    using c by (rule read_response_exact)
  show "feed (snd (read_response sm timeout w)) =
          drop (length (window_prefix (clock w) (clock w + timeout) (feed w))) (feed w)"
    using c by (rule read_response_exact)
  show "timeout \<le> clock (snd (read_response sm timeout w)) - clock w"
    using c by (rule read_response_exact)
next
  assume c: "connected sm"
    and a: "within_window (clock w) (clock w + timeout) (feed w)"
  from a have p: "window_prefix (clock w) (clock w + timeout) (feed w) = feed w"
    by (rule window_prefix_all)
  show "fst (read_response sm timeout w) = lines_of (feed w)"
    using read_response_exact(1) [OF c, of timeout w] p by simp
  show "feed (snd (read_response sm timeout w)) = []"
    using read_response_exact(2) [OF c, of timeout w] p by simp
qed

text \<open>
  C2 as stated ("without waiting the full timeout") fails: two lines that arrive in
  the first 2 ms of a window of 1000 ms are returned, but only at clock 1002.
\<close>

theorem read_response_waits_full_timeout:
  "read_response port 1000 early_world = ([''a'', ''b''], \<lparr>clock = 1002, feed = []\<rparr>)"
  unfolding port_def early_world_def by code_simp

theorem read_response_collects_witness:
  "connected port
   \<and> within_window (clock blank_line_world) (clock blank_line_world + 1000)
        (feed blank_line_world)
   \<and> lines_of (feed blank_line_world) = [''a'', ''b'']
   \<and> fst (read_response port 1000 blank_line_world) = [''a'', ''b'']
   \<and> feed (snd (read_response port 1000 blank_line_world)) = []
   \<and> 1000 \<le> clock (snd (read_response port 1000 blank_line_world)) - clock blank_line_world"
proof -
  note t = read_response_collects [of port 1000 blank_line_world]
  have c: "connected port" by (simp add: port_def)
  have a: "within_window (clock blank_line_world) (clock blank_line_world + 1000)
        (feed blank_line_world)"
    unfolding blank_line_world_def by code_simp
  have l: "lines_of (feed blank_line_world) = [''a'', ''b'']"
    unfolding blank_line_world_def by code_simp
  from t c a have f: "fst (read_response port 1000 blank_line_world) = lines_of (feed blank_line_world)"
    and e: "feed (snd (read_response port 1000 blank_line_world)) = []"
    and d: "1000 \<le> clock (snd (read_response port 1000 blank_line_world)) - clock blank_line_world"
    by blast+
  from f l have "fst (read_response port 1000 blank_line_world) = [''a'', ''b'']" by simp
  with c a l e d show ?thesis by blast
qed

section \<open>The scan\<close>







end
